theory Spec2Isabelle
  imports Complex_Main "HOL-Library.AList"
begin

section \<open>The multi-key Gemini client (backend/src/core/gemini\_client.py)\<close>

text \<open>
  The class \<open>GeminiClient\<close> keeps its credential pool in class-level attributes that every
  instance shares. The model keeps them in one record. The remote service, the random
  jitter and the clock are parameters of the model; what the code does to the outside
  (a remote call, a key rotation, a sleep) is appended to a trace kept in the state.
\<close>

subsection \<open>Strings\<close>

fun starts_with :: "string \<Rightarrow> string \<Rightarrow> bool" where
  "starts_with s [] = True"
| "starts_with [] (p # ps) = False"
| "starts_with (c # cs) (p # ps) = (c = p \<and> starts_with cs ps)"

text \<open>\<open>str_in sub s\<close> is Python's \<open>sub in s\<close> on strings.\<close>

fun str_in :: "string \<Rightarrow> string \<Rightarrow> bool" where
  "str_in sub [] = (sub = [])"
| "str_in sub (c # cs) = (starts_with (c # cs) sub \<or> str_in sub cs)"

subsection \<open>Data\<close>

type_synonym key_name = string

text \<open>A \<open>genai.Client\<close> is opaque to the code; it is identified by the key it was built from.\<close>

datatype client = Client string

text \<open>
  What \<open>\_parse\_with\_gemini\<close> can see of a response object: a \<open>text\<close> attribute, or the
  parts or the text of the content of the first candidate, or none of them. A missing or
  \<open>None\<close> text is the empty string. \<open>RFalsy\<close> is a response that is false as a condition.
\<close>

datatype response =
    RText string
  | RParts "string list"
  | RContentText string
  | ROther
  | RFalsy

text \<open>
  A remote call returns a response or raises an exception \<open>e\<close>, kept as its class, as far
  as the code tells classes apart, and \<open>str(e)\<close>.
\<close>

datatype exc_class = JSONDecodeError | OtherError

datatype outcome = Returns response | Raises exc_class string

datatype error =
    Exception string
  | RemoteError exc_class string
  | ValueError string
  | TypeError string
  | KeyError string
  | AttributeError string
  | OverflowError

datatype event =
    Called key_name
  | Rotated key_name key_name
  | Slept real

text \<open>
  The class-level state. \<open>self.api_keys\<close>, \<open>self.clients\<close> and \<open>self.key_failures\<close> are
  bound by \<open>\_\_init\_\_\<close> to the class-level objects, so there is one copy of each.
  \<open>trace\<close> records the remote calls (\<open>generate_content\<close>), the rotations that the code
  reports (\<open>KEY ROTATION\<close>) and the sleeps (\<open>time.sleep\<close>), oldest first.
\<close>

record shared =
  shared_key_index :: nat
  shared_key_failures :: "(key_name \<times> int) list"
  shared_clients :: "(key_name \<times> client option) list"
  api_keys_loaded :: "(key_name \<times> string) list"
  all_keys_exhausted :: bool
  trace :: "event list"

text \<open>
  The remote service: the number of remote calls made before, the client and the prompt
  decide the outcome of \<open>client.models.generate_content\<close>.
\<close>

type_synonym transport = "nat \<Rightarrow> client \<Rightarrow> string \<Rightarrow> outcome"

fun is_call :: "event \<Rightarrow> bool" where
  "is_call (Called k) = True"
| "is_call _ = False"

fun is_sleep :: "event \<Rightarrow> bool" where
  "is_sleep (Slept d) = True"
| "is_sleep _ = False"

fun is_rotation :: "event \<Rightarrow> bool" where
  "is_rotation (Rotated a b) = True"
| "is_rotation _ = False"

definition ncalls :: "shared \<Rightarrow> nat" where
  "ncalls s = length (filter is_call (trace s))"

subsection \<open>Pool access\<close>

definition get_current_key_name :: "shared \<Rightarrow> key_name" where
  "get_current_key_name s =
     (if shared_key_index s < length (api_keys_loaded s)
      then fst (api_keys_loaded s ! shared_key_index s)
      else ''UNKNOWN'')"

definition get_key_name_at :: "shared \<Rightarrow> nat \<Rightarrow> key_name" where
  "get_key_name_at s index =
     (if index < length (api_keys_loaded s)
      then fst (api_keys_loaded s ! index)
      else ''UNKNOWN'')"

text \<open>\<open>self.clients.get(name)\<close>: \<open>None\<close> for a missing name and for a stored \<open>None\<close>.\<close>

definition clients_get :: "shared \<Rightarrow> key_name \<Rightarrow> client option" where
  "clients_get s name = (case map_of (shared_clients s) name of None \<Rightarrow> None | Some c \<Rightarrow> c)"

definition get_current_client :: "shared \<Rightarrow> client option" where
  "get_current_client s = clients_get s (get_current_key_name s)"

subsection \<open>Rotation\<close>

text \<open>
  The loop of \<open>\_rotate\_to\_next\_key\<close>, with the number of iterations left. Each iteration
  advances the shared index by one, wrapping, and stops at a key with a client whose name
  is not the original one.
\<close>

fun rotate_scan :: "nat \<Rightarrow> key_name \<Rightarrow> shared \<Rightarrow> bool \<times> shared" where
  "rotate_scan 0 original_key s = (False, s)"
| "rotate_scan (Suc n) original_key s =
     (let s' = s\<lparr>shared_key_index := (shared_key_index s + 1) mod length (api_keys_loaded s)\<rparr>;
          key_name = get_current_key_name s'
      in if clients_get s' key_name \<noteq> None \<and> key_name \<noteq> original_key
         then (True, s'\<lparr>trace := trace s' @ [Rotated original_key key_name]\<rparr>)
         else rotate_scan n original_key s')"

definition rotate_to_next_key :: "shared \<Rightarrow> bool \<times> shared" where
  "rotate_to_next_key s =
     (let original_key = get_key_name_at s (shared_key_index s)
      in if length (api_keys_loaded s) = 1 then (False, s)
         else rotate_scan (length (api_keys_loaded s) - 1) original_key s)"

subsection \<open>The dispatcher\<close>

definition is_quota :: "string \<Rightarrow> bool" where
  "is_quota error_str = (str_in ''429'' error_str \<or> str_in ''RESOURCE_EXHAUSTED'' error_str)"

definition failures_get :: "shared \<Rightarrow> key_name \<Rightarrow> int" where
  "failures_get s name = (case map_of (shared_key_failures s) name of None \<Rightarrow> 0 | Some n \<Rightarrow> n)"

text \<open>
  One iteration of the \<open>for attempt in range(max_retries)\<close> loop of \<open>call_with_retry\<close>:
  it returns the response, raises, or goes on to the next iteration. \<open>Continue e\<close> carries
  the new value of \<open>last_error\<close>, \<open>None\<close> when the iteration did not assign it.
  \<open>jitter attempt\<close> is the value of \<open>random.uniform(0, 1)\<close> drawn in that iteration.
\<close>

datatype step = Return response | Raise error | Continue "error option"

definition attempt_body :: "transport \<Rightarrow> (nat \<Rightarrow> real) \<Rightarrow> string \<Rightarrow> nat \<Rightarrow> shared \<Rightarrow> step \<times> shared" where
  "attempt_body tr jitter prompt attempt s =
     (if all_keys_exhausted s
      then (Raise (Exception ''All API keys quota exhausted (global state)''), s)
      else case get_current_client s of
        None \<Rightarrow> (Continue None, snd (rotate_to_next_key s))
      | Some client \<Rightarrow>
          (let key_name = get_current_key_name s;
               s1 = s\<lparr>trace := trace s @ [Called key_name]\<rparr>
           in case tr (ncalls s) client prompt of
             Returns response \<Rightarrow>
               (Return response,
                s1\<lparr>shared_key_failures := AList.update key_name 0 (shared_key_failures s1)\<rparr>)
           | Raises cls error_str \<Rightarrow>
               (let s2 = s1\<lparr>shared_key_failures :=
                           AList.update key_name (failures_get s1 key_name + 1) (shared_key_failures s1)\<rparr>
                in if is_quota error_str
                   then (case rotate_to_next_key s2 of
                           (False, s3) \<Rightarrow>
                             (Raise (Exception ''All API keys quota exhausted''),
                              s3\<lparr>all_keys_exhausted := True\<rparr>)
                         | (True, s3) \<Rightarrow>
                             (Continue (Some (RemoteError cls error_str)),
                              s3\<lparr>trace := trace s3 @ [Slept (2 ^ attempt + jitter attempt)]\<rparr>))
                   else (Raise (RemoteError cls error_str), s2))))"

text \<open>The loop, with the number of iterations left and the number of the next attempt.\<close>

fun retry_loop ::
  "transport \<Rightarrow> (nat \<Rightarrow> real) \<Rightarrow> string \<Rightarrow> nat \<Rightarrow> nat \<Rightarrow> error option \<Rightarrow> shared
   \<Rightarrow> (error + response) \<times> shared" where
  "retry_loop tr jitter prompt 0 attempt last_error s =
     (Inl (case last_error of Some e \<Rightarrow> e | None \<Rightarrow> Exception ''All retries failed''), s)"
| "retry_loop tr jitter prompt (Suc left) attempt last_error s =
     (case attempt_body tr jitter prompt attempt s of
        (Return response, s') \<Rightarrow> (Inr response, s')
      | (Raise e, s') \<Rightarrow> (Inl e, s')
      | (Continue upd, s') \<Rightarrow>
          retry_loop tr jitter prompt left (Suc attempt)
            (case upd of None \<Rightarrow> last_error | Some e \<Rightarrow> Some e) s')"

definition call_with_retry ::
  "transport \<Rightarrow> (nat \<Rightarrow> real) \<Rightarrow> string \<Rightarrow> int \<Rightarrow> shared \<Rightarrow> (error + response) \<times> shared" where
  "call_with_retry tr jitter prompt max_retries s =
     (if all_keys_exhausted s
      then (Inl (Exception ''All API keys quota exhausted (global state)''), s)
      else retry_loop tr jitter prompt (nat max_retries) 0 None s)"

subsection \<open>Construction\<close>

text \<open>The environment: \<open>os.getenv(name)\<close> is \<open>env name\<close>, \<open>None\<close> for an unset variable.\<close>

type_synonym environ = "string \<Rightarrow> string option"

definition getenv_default :: "environ \<Rightarrow> string \<Rightarrow> string \<Rightarrow> string" where
  "getenv_default env name dflt = (case env name of None \<Rightarrow> dflt | Some v \<Rightarrow> v)"

text \<open>
  The loop over the backup keys of \<open>\_load\_api\_keys\<close>, over the decimal numerals of
  \<open>range(1, 4)\<close>; an empty value counts as unset.
\<close>

fun load_backup_keys :: "environ \<Rightarrow> string list \<Rightarrow> (key_name \<times> string) list \<Rightarrow> (key_name \<times> string) list" where
  "load_backup_keys env [] keys = keys"
| "load_backup_keys env (i # is) keys =
     (case env (''GEMINI_API_KEY_'' @ i) of
        None \<Rightarrow> load_backup_keys env is keys
      | Some backup \<Rightarrow>
          if backup \<noteq> [] then load_backup_keys env is (keys @ [(''BACKUP_'' @ i, backup)])
          else load_backup_keys env is keys)"

definition load_api_keys :: "environ \<Rightarrow> (key_name \<times> string) list" where
  "load_api_keys env =
     (let keys = (case env ''GEMINI_API_KEY'' of
                    None \<Rightarrow> []
                  | Some primary \<Rightarrow> if primary \<noteq> [] then [(''PRIMARY'', primary)] else [])
      in load_backup_keys env [''1'', ''2'', ''3''] keys)"

text \<open>
  \<open>genai_client api_key\<close> is the result of \<open>genai.Client(api_key=api_key)\<close>, \<open>None\<close> when the
  constructor raises; the code then stores \<open>None\<close> for the key.
\<close>

fun initialize_all_clients :: "(string \<Rightarrow> client option) \<Rightarrow> (key_name \<times> string) list \<Rightarrow> shared \<Rightarrow> shared" where
  "initialize_all_clients genai_client [] s = s"
| "initialize_all_clients genai_client ((name, api_key) # rest) s =
     initialize_all_clients genai_client rest
       (s\<lparr>shared_clients := AList.update name (genai_client api_key) (shared_clients s)\<rparr>)"

text \<open>The class-level attributes as the class statement leaves them.\<close>

definition class_state :: shared where
  "class_state = \<lparr>shared_key_index = 0, shared_key_failures = [], shared_clients = [],
     api_keys_loaded = [], all_keys_exhausted = False, trace = []\<rparr>"

record gemini_client =
  model_name :: string
  max_tokens :: int
  temperature :: real
  mock_mode :: bool

text \<open>
  \<open>\_\_init\_\_\<close>. \<open>py_int\<close> and \<open>py_float\<close> are the built-in conversions \<open>int()\<close> and \<open>float()\<close>
  of a string, \<open>None\<close> when they raise \<open>ValueError\<close>. The class-level state is returned also
  when a conversion raises, since it was assigned before.
\<close>

definition init ::
  "environ \<Rightarrow> (string \<Rightarrow> client option) \<Rightarrow> (string \<Rightarrow> int option) \<Rightarrow> (string \<Rightarrow> real option)
   \<Rightarrow> shared \<Rightarrow> (error + gemini_client) \<times> shared" where
  "init env genai_client py_int py_float cls =
     (let cls1 =
        (if api_keys_loaded cls = []
         then (let keys = load_api_keys env
               in initialize_all_clients genai_client keys
                    (cls\<lparr>api_keys_loaded := keys,
                         shared_key_failures := map (\<lambda>(name, _). (name, 0)) keys\<rparr>))
         else cls)
      in case py_int (getenv_default env ''GEMINI_MAX_TOKENS'' ''8192'') of
           None \<Rightarrow> (Inl (ValueError ''invalid literal for int()''), cls1)
         | Some tokens \<Rightarrow>
             (case py_float (getenv_default env ''GEMINI_TEMPERATURE'' ''0.2'') of
                None \<Rightarrow> (Inl (ValueError ''could not convert string to float''), cls1)
              | Some temp \<Rightarrow>
                  (Inr \<lparr>model_name = getenv_default env ''GEMINI_MODEL'' ''gemini-2.5-flash-lite'',
                        max_tokens = tokens, temperature = temp, mock_mode = False\<rparr>, cls1)))"

subsection \<open>Attributes of an instance\<close>

datatype attr_value =
    AInt int
  | AReal real
  | ABool bool
  | AStr string
  | ANames "string list"
  | AKeys "(key_name \<times> string) list"
  | AClients "(key_name \<times> client option) list"
  | AFailures "(key_name \<times> int) list"
  | AMethod string

definition method_names :: "string list" where
  "method_names =
     [''__init__'', ''_load_api_keys'', ''_initialize_all_clients'', ''_get_current_key_name'',
      ''_rotate_to_next_key'', ''_get_key_name_at'', ''_get_current_client'', ''call_with_retry'',
      ''parse_intent'', ''_parse_with_gemini'', ''_create_intent_parsing_prompt'',
      ''_extract_json_from_response'', ''_validate_intent_structure'', ''_enhanced_mock_parse'',
      ''get_status'', ''get_key_rotation_info'']"

text \<open>
  \<open>self.name\<close>: the attributes that \<open>\_\_init\_\_\<close> assigns on the instance, then the
  attributes and methods of the class body; any other name raises \<open>AttributeError\<close>
  (the class defines no \<open>\_\_getattr\_\_\<close>, and no method assigns another attribute).
\<close>

definition self_attr :: "gemini_client \<Rightarrow> shared \<Rightarrow> string \<Rightarrow> error + attr_value" where
  "self_attr inst s name =
     (if name = ''api_keys'' then Inr (AKeys (api_keys_loaded s))
      else if name = ''clients'' then Inr (AClients (shared_clients s))
      else if name = ''key_failures'' then Inr (AFailures (shared_key_failures s))
      else if name = ''model_name'' then Inr (AStr (model_name inst))
      else if name = ''max_tokens'' then Inr (AInt (max_tokens inst))
      else if name = ''temperature'' then Inr (AReal (temperature inst))
      else if name = ''mock_mode'' then Inr (ABool (mock_mode inst))
      else if name = ''_shared_key_index'' then Inr (AInt (int (shared_key_index s)))
      else if name = ''_shared_key_failures'' then Inr (AFailures (shared_key_failures s))
      else if name = ''_shared_clients'' then Inr (AClients (shared_clients s))
      else if name = ''_api_keys_loaded'' then Inr (AKeys (api_keys_loaded s))
      else if name = ''_all_keys_exhausted'' then Inr (ABool (all_keys_exhausted s))
      else if name \<in> set method_names then Inr (AMethod name)
      else Inl (AttributeError name))"

text \<open>
  \<open>get_key_rotation_info\<close>: the values of the dictionary display are evaluated in order,
  and the first one that raises ends the call.
\<close>

definition get_key_rotation_info :: "gemini_client \<Rightarrow> shared \<Rightarrow> error + (string \<times> attr_value) list" where
  "get_key_rotation_info inst s =
     (let current_key = get_current_key_name s
      in case self_attr inst s ''current_key_index'' of
           Inl e \<Rightarrow> Inl e
         | Inr current_index \<Rightarrow>
             Inr [(''current_key'', AStr current_key),
                  (''current_index'', current_index),
                  (''total_keys'', AInt (int (length (api_keys_loaded s)))),
                  (''key_failures'', AFailures (shared_key_failures s)),
                  (''keys'', ANames (map fst (api_keys_loaded s)))])"

subsection \<open>Characters\<close>

text \<open>
  Strings are 8-bit: the model covers Latin-1 text. \<open>is_space\<close> is \<open>str.isspace\<close> (and the
  class \<open>\s\<close> of \<open>re\<close>), \<open>is_digit\<close> the class \<open>\d\<close>, \<open>py_lower\<close> is \<open>str.lower\<close>.
\<close>

definition is_digit :: "char \<Rightarrow> bool" where
  "is_digit c = (48 \<le> (of_char c :: nat) \<and> (of_char c :: nat) \<le> 57)"

definition is_space :: "char \<Rightarrow> bool" where
  "is_space c = ((of_char c :: nat) \<in> set [9, 10, 11, 12, 13, 28, 29, 30, 31, 32, 133, 160])"

definition lower_char :: "char \<Rightarrow> char" where
  "lower_char c =
     (let n = (of_char c :: nat)
      in if (65 \<le> n \<and> n \<le> 90) \<or> (192 \<le> n \<and> n \<le> 222 \<and> n \<noteq> 215) then char_of (n + 32) else c)"

definition py_lower :: "string \<Rightarrow> string" where
  "py_lower t = map lower_char t"

text \<open>\<open>t.split()\<close>: the maximal runs of characters that are not white space.\<close>

fun split_acc :: "string \<Rightarrow> string \<Rightarrow> string list" where
  "split_acc cur [] = (if cur = [] then [] else [cur])"
| "split_acc cur (c # cs) =
     (if is_space c then (if cur = [] then split_acc [] cs else cur # split_acc [] cs)
      else split_acc (cur @ [c]) cs)"

definition py_split :: "string \<Rightarrow> string list" where
  "py_split t = split_acc [] t"

text \<open>\<open>any(keyword in t for keyword in keywords)\<close>.\<close>

definition any_in :: "string list \<Rightarrow> string \<Rightarrow> bool" where
  "any_in keywords t = list_ex (\<lambda>keyword. str_in keyword t) keywords"

subsection \<open>JSON values and the validation of a parsed intent\<close>

datatype json =
    JNull
  | JBool bool
  | JInt int
  | JFloat real
  | JStr string
  | JArr "json list"
  | JObj "(string \<times> json) list"

definition required_fields :: "string list" where
  "required_fields = [''workload_type'', ''scale'', ''requirements'', ''constraints'', ''parsing_confidence'']"

definition valid_workloads :: "string list" where
  "valid_workloads =
     [''api_backend'', ''web_app'', ''data_processing'', ''ml_inference'', ''batch_processing'',
      ''realtime_streaming'', ''mobile_backend'', ''gaming_server'']"

text \<open>\<open>field in data\<close>, for whatever \<open>json.loads\<close> returned.\<close>

fun json_contains :: "json \<Rightarrow> string \<Rightarrow> error + bool" where
  "json_contains (JObj kvs) field = Inr (map_of kvs field \<noteq> None)"
| "json_contains (JArr xs) field = Inr (JStr field \<in> set xs)"
| "json_contains (JStr t) field = Inr (str_in field t)"
| "json_contains _ field = Inl (TypeError ''argument is not iterable'')"

text \<open>\<open>data[key]\<close> with a string key.\<close>

fun json_item :: "json \<Rightarrow> string \<Rightarrow> error + json" where
  "json_item (JObj kvs) key = (case map_of kvs key of None \<Rightarrow> Inl (KeyError key) | Some v \<Rightarrow> Inr v)"
| "json_item _ key = Inl (TypeError ''indices must be integers'')"

text \<open>\<open>data[key] = v\<close> with a string key.\<close>

fun json_set :: "json \<Rightarrow> string \<Rightarrow> json \<Rightarrow> error + json" where
  "json_set (JObj kvs) key v = Inr (JObj (AList.update key v kvs))"
| "json_set _ key v = Inl (TypeError ''does not support item assignment'')"

fun check_required :: "json \<Rightarrow> string list \<Rightarrow> error + unit" where
  "check_required data [] = Inr ()"
| "check_required data (field # rest) =
     (case json_contains data field of
        Inl e \<Rightarrow> Inl e
      | Inr present \<Rightarrow>
          if \<not> present then Inl (ValueError (''Missing required field: '' @ field))
          else check_required data rest)"

text \<open>
  \<open>isinstance(confidence, (int, float)) and 0.0 <= confidence <= 1.0\<close>; a Python \<open>bool\<close> is
  an \<open>int\<close> of value 0 or 1.
\<close>

fun confidence_ok :: "json \<Rightarrow> bool" where
  "confidence_ok (JInt n) = (0 \<le> n \<and> n \<le> 1)"
| "confidence_ok (JFloat x) = (0 \<le> x \<and> x \<le> 1)"
| "confidence_ok (JBool b) = True"
| "confidence_ok _ = False"

definition validate_intent_structure :: "json \<Rightarrow> error + unit" where
  "validate_intent_structure data =
     (case check_required data required_fields of
        Inl e \<Rightarrow> Inl e
      | Inr _ \<Rightarrow>
          (case json_item data ''workload_type'' of
             Inl e \<Rightarrow> Inl e
           | Inr workload \<Rightarrow>
               if workload \<notin> set (map JStr valid_workloads)
               then Inl (ValueError ''Invalid workload_type'')
               else (case json_item data ''parsing_confidence'' of
                       Inl e \<Rightarrow> Inl e
                     | Inr confidence \<Rightarrow>
                         if \<not> confidence_ok confidence
                         then Inl (ValueError ''Invalid parsing_confidence'')
                         else Inr ())))"

subsection \<open>Extracting JSON from a response\<close>

text \<open>
  \<open>re.sub(pat + r'\s*', '', text)\<close> for a literal, non-empty \<open>pat\<close>: every occurrence of
  \<open>pat\<close> goes, with the white space after it.
\<close>

function re_sub_fence :: "string \<Rightarrow> string \<Rightarrow> string" where
  "re_sub_fence pat [] = []"
| "re_sub_fence pat (c # cs) =
     (if pat \<noteq> [] \<and> starts_with (c # cs) pat
      then re_sub_fence pat (dropWhile is_space (drop (length pat) (c # cs)))
      else c # re_sub_fence pat cs)"
  by pat_completeness auto
termination
proof (relation "measure (\<lambda>(pat, text). length text)")
  show "wf (measure (\<lambda>(pat, text). length text))" by simp
next
  fix pat :: string and c :: char and cs :: string
  assume "pat \<noteq> [] \<and> starts_with (c # cs) pat"
  then obtain p ps where pat: "pat = p # ps" by (cases pat) auto
  have "length (dropWhile is_space (drop (length pat) (c # cs))) \<le> length (drop (length pat) (c # cs))"
    by (rule length_dropWhile_le)
  also have "\<dots> < length (c # cs)" using pat by simp
  finally show "((pat, dropWhile is_space (drop (length pat) (c # cs))), (pat, c # cs))
                  \<in> measure (\<lambda>(pat, text). length text)"
    by simp
next
  fix pat :: string and c :: char and cs :: string
  show "((pat, cs), (pat, c # cs)) \<in> measure (\<lambda>(pat, text). length text)" by simp
qed

text \<open>
  \<open>re.search\<close> of \<open>l.*r\<close> with \<open>re.DOTALL\<close>, for two characters \<open>l\<close> and \<open>r\<close>: from the
  first \<open>l\<close> to the last \<open>r\<close> after it.
\<close>

definition search_between :: "char \<Rightarrow> char \<Rightarrow> string \<Rightarrow> string option" where
  "search_between l r text =
     (case dropWhile (\<lambda>c. c \<noteq> l) text of
        [] \<Rightarrow> None
      | _ # body \<Rightarrow>
          (let m = rev (dropWhile (\<lambda>c. c \<noteq> r) (rev body))
           in if m = [] then None else Some (l # m)))"

text \<open>\<open>json_loads t\<close> is \<open>json.loads(t)\<close>, \<open>None\<close> when it raises \<open>JSONDecodeError\<close>.\<close>

definition extract_json_from_response :: "(string \<Rightarrow> json option) \<Rightarrow> string \<Rightarrow> string option" where
  "extract_json_from_response json_loads text0 =
     (let text1 = re_sub_fence (replicate 3 (CHR 0x60) @ ''json'') text0;
          text = re_sub_fence (replicate 3 (CHR 0x60)) text1;
          second = (case search_between (CHR ''['') (CHR '']'') text of
                      None \<Rightarrow> None
                    | Some json_str \<Rightarrow> if json_loads json_str \<noteq> None then Some json_str else None)
      in case search_between (CHR ''{'') (CHR ''}'') text of
           None \<Rightarrow> second
         | Some json_str \<Rightarrow> if json_loads json_str \<noteq> None then Some json_str else second)"

subsection \<open>The fallback parser\<close>

text \<open>
  What the code takes from outside, besides the environment: the remote service, the
  random draws, the clock, the prompt template and \<open>json.loads\<close>. The draws are
  \<open>random.uniform(0, 1)\<close> of each attempt (\<open>backoff_jitter\<close>), the index drawn by each
  \<open>random.choice\<close>, the offset drawn by \<open>random.randint\<close>, and the \<open>random.random()\<close>
  behind the \<open>random.uniform\<close> of the confidence.
\<close>

record world =
  remote :: transport
  backoff_jitter :: "nat \<Rightarrow> real"
  prompt_of :: "string \<Rightarrow> string"
  json_loads :: "string \<Rightarrow> json option"
  choice_users :: nat
  randint_rps :: nat
  choice_traffic :: nat
  uniform_confidence :: real
  elapsed_ms :: int
  utcnow_isoformat :: string

definition random_choice :: "'a list \<Rightarrow> nat \<Rightarrow> 'a" where
  "random_choice xs draw = xs ! (draw mod length xs)"

definition randint :: "int \<Rightarrow> int \<Rightarrow> nat \<Rightarrow> int" where
  "randint a b draw = a + int (draw mod nat (b - a + 1))"

definition uniform :: "real \<Rightarrow> real \<Rightarrow> real \<Rightarrow> real" where
  "uniform a b u = a + (b - a) * u"

text \<open>
  Floats are reals in the model: rounding to the nearest double is left out, and
  \<open>round(x, 2)\<close> rounds a tie upwards.
\<close>

definition round2 :: "real \<Rightarrow> real" where
  "round2 x = real_of_int (round (x * 100)) / 100"

definition workload_keywords :: "(string \<times> string list) list" where
  "workload_keywords =
     [(''api_backend'', [''api'', ''rest'', ''endpoint'', ''backend'', ''service'', ''microservice'']),
      (''web_app'', [''web'', ''website'', ''frontend'', ''app'', ''portal'', ''dashboard'']),
      (''data_processing'', [''data'', ''process'', ''etl'', ''pipeline'', ''batch'', ''analytics'']),
      (''ml_inference'', [''ml'', ''ai'', ''model'', ''learning'', ''inference'', ''prediction'']),
      (''realtime_streaming'', [''stream'', ''realtime'', ''live'', ''websocket'', ''socket'']),
      (''mobile_backend'', [''mobile'', ''app backend'', ''ios'', ''android'']),
      (''gaming_server'', [''game'', ''gaming'', ''multiplayer'', ''real-time''])]"

definition regions :: "(string \<times> string list) list" where
  "regions =
     [(''india'', [''india'', ''mumbai'', ''delhi'', ''bangalore'', ''chennai'']),
      (''us-east'', [''us east'', ''virginia'', ''us-east'']),
      (''us-west'', [''us west'', ''oregon'', ''california'', ''us-west'']),
      (''europe'', [''europe'', ''frankfurt'', ''london'', ''paris'']),
      (''asia'', [''asia'', ''singapore'', ''tokyo'']),
      (''australia'', [''australia'', ''sydney''])]"

text \<open>The loops over a keyword table: the first entry with a keyword in the input.\<close>

fun first_matching :: "(string \<times> string list) list \<Rightarrow> string \<Rightarrow> string \<Rightarrow> string" where
  "first_matching [] input_lower dflt = dflt"
| "first_matching ((name, keywords) # rest) input_lower dflt =
     (if any_in keywords input_lower then name else first_matching rest input_lower dflt)"

text \<open>
  The first element of \<open>re.findall(r'\d+[,.]?\d*[kKmM]?', user_input)\<close>: the match that
  starts at the first digit.
\<close>

definition first_number :: "string \<Rightarrow> string option" where
  "first_number user_input =
     (let rest = dropWhile (\<lambda>c. \<not> is_digit c) user_input
      in if rest = [] then None
         else (let d1 = takeWhile is_digit rest;
                   r1 = dropWhile is_digit rest;
                   sep = (case r1 of [] \<Rightarrow> [] | c # _ \<Rightarrow> if c = CHR '','' \<or> c = CHR ''.'' then [c] else []);
                   r2 = drop (length sep) r1;
                   d2 = takeWhile is_digit r2;
                   r3 = dropWhile is_digit r2;
                   suffix = (case r3 of [] \<Rightarrow> [] | c # _ \<Rightarrow> if c \<in> set ''kKmM'' then [c] else [])
               in Some (d1 @ sep @ d2 @ suffix)))"

definition digits_value :: "string \<Rightarrow> nat" where
  "digits_value ds = foldl (\<lambda>a c. 10 * a + ((of_char c :: nat) - 48)) 0 ds"

text \<open>
  \<open>float(t)\<close> on the strings that the pattern above leaves: digits with at most one
  separator. A comma is not accepted. (Other strings are answered with \<open>ValueError\<close>
  too; the code passes none.)
\<close>

definition float_of_decimal :: "string \<Rightarrow> error + real" where
  "float_of_decimal t =
     (let ip = takeWhile is_digit t; r = dropWhile is_digit t
      in case r of
           [] \<Rightarrow> if ip = [] then Inl (ValueError ''could not convert string to float'')
                 else Inr (real (digits_value ip))
         | c # fp \<Rightarrow>
             if c = CHR ''.'' \<and> list_all is_digit fp \<and> (ip \<noteq> [] \<or> fp \<noteq> [])
             then Inr (real (digits_value ip) + real (digits_value fp) / 10 ^ length fp)
             else Inl (ValueError ''could not convert string to float''))"

text \<open>\<open>int(x)\<close> of a float: truncation, and \<open>OverflowError\<close> beyond the range of a double.\<close>

definition float_overflow :: real where
  "float_overflow = 2 ^ 1024 - 2 ^ 970"

definition py_int_of_float :: "real \<Rightarrow> error + int" where
  "py_int_of_float x =
     (if float_overflow \<le> \<bar>x\<bar> then Inl OverflowError
      else Inr (if 0 \<le> x then \<lfloor>x\<rfloor> else \<lceil>x\<rceil>))"

text \<open>The body of the \<open>try\<close> that reads the number of users.\<close>

definition users_of_number :: "string \<Rightarrow> error + int" where
  "users_of_number number =
     (let num_str = py_lower number
      in if str_in ''k'' num_str
         then (case float_of_decimal (filter (\<lambda>c. c \<noteq> CHR ''k'') num_str) of
                 Inl e \<Rightarrow> Inl e | Inr x \<Rightarrow> py_int_of_float (x * 1000))
         else if str_in ''m'' num_str
         then (case float_of_decimal (filter (\<lambda>c. c \<noteq> CHR ''m'') num_str) of
                 Inl e \<Rightarrow> Inl e | Inr x \<Rightarrow> py_int_of_float (x * 1000000))
         else (case float_of_decimal num_str of
                 Inl e \<Rightarrow> Inl e | Inr x \<Rightarrow> py_int_of_float x))"

definition monthly_users_of :: "world \<Rightarrow> string \<Rightarrow> int" where
  "monthly_users_of w user_input =
     (case first_number user_input of
        None \<Rightarrow> 10000
      | Some number \<Rightarrow>
          (case users_of_number number of
             Inr users \<Rightarrow> users
           | Inl _ \<Rightarrow> random_choice [1000, 5000, 10000, 50000, 100000] (choice_users w)))"

definition estimated_rps_of :: "world \<Rightarrow> int \<Rightarrow> int" where
  "estimated_rps_of w monthly_users =
     (if monthly_users < 1000 then randint 1 10 (randint_rps w)
      else if monthly_users < 10000 then randint 10 50 (randint_rps w)
      else if monthly_users < 100000 then randint 50 200 (randint_rps w)
      else randint 200 1000 (randint_rps w))"

definition traffic_pattern_of :: "world \<Rightarrow> string \<Rightarrow> string" where
  "traffic_pattern_of w input_lower =
     (if any_in [''steady'', ''consistent'', ''constant''] input_lower then ''steady''
      else if any_in [''burst'', ''spike'', ''peak'', ''seasonal''] input_lower then ''bursty''
      else if any_in [''variable'', ''varying''] input_lower then ''variable''
      else random_choice [''steady'', ''variable'', ''bursty''] (choice_traffic w))"

definition latency_of :: "string \<Rightarrow> string" where
  "latency_of input_lower =
     (if str_in ''low latency'' input_lower \<or> str_in ''fast'' input_lower then ''low''
      else if str_in ''ultra low'' input_lower \<or> str_in ''real-time'' input_lower then ''ultra_low''
      else ''medium'')"

definition availability_of :: "string \<Rightarrow> string" where
  "availability_of input_lower =
     (if str_in ''high availability'' input_lower \<or> str_in ''99.9'' input_lower then ''critical''
      else ''high'')"

definition compliance_of :: "string \<Rightarrow> string list" where
  "compliance_of input_lower =
     (if any_in [''gdpr'', ''europe''] input_lower then [''gdpr''] else []) @
     (if any_in [''hipaa'', ''health''] input_lower then [''hipaa''] else []) @
     (if any_in [''pci'', ''payment''] input_lower then [''pci''] else [])"

definition budget_sensitivity_of :: "string \<Rightarrow> string" where
  "budget_sensitivity_of input_lower =
     (if str_in ''budget'' input_lower \<and> any_in [''tight'', ''low'', ''cost''] input_lower then ''high''
      else ''medium'')"

definition team_experience_of :: "string \<Rightarrow> string" where
  "team_experience_of input_lower =
     (if any_in [''junior'', ''beginner'', ''new''] input_lower then ''junior''
      else if any_in [''senior'', ''expert''] input_lower then ''senior''
      else ''intermediate'')"

definition time_to_market_of :: "string \<Rightarrow> string" where
  "time_to_market_of input_lower =
     (if any_in [''urgent'', ''immediate'', ''asap''] input_lower then ''immediate''
      else if any_in [''week'', ''soon''] input_lower then ''1_week''
      else ''1_month'')"

definition confidence_of :: "world \<Rightarrow> string \<Rightarrow> real" where
  "confidence_of w user_input =
     (let word_count = length (py_split user_input)
      in if word_count < 10 then round2 (uniform 0.6 0.75 (uniform_confidence w))
         else if word_count < 30 then round2 (uniform 0.75 0.85 (uniform_confidence w))
         else round2 (uniform 0.85 0.95 (uniform_confidence w)))"

definition enhanced_mock_parse :: "world \<Rightarrow> string \<Rightarrow> (string \<times> json) list" where
  "enhanced_mock_parse w user_input =
     (let input_lower = py_lower user_input;
          detected_workload = first_matching workload_keywords input_lower ''api_backend'';
          monthly_users = monthly_users_of w user_input;
          estimated_rps = estimated_rps_of w monthly_users;
          geography = first_matching regions input_lower ''global''
      in [(''workload_type'', JStr detected_workload),
          (''scale'', JObj [(''monthly_users'', JInt monthly_users),
                           (''estimated_rps'', JInt estimated_rps),
                           (''traffic_pattern'', JStr (traffic_pattern_of w input_lower))]),
          (''requirements'', JObj [(''latency'', JStr (latency_of input_lower)),
                                  (''availability'', JStr (availability_of input_lower)),
                                  (''geography'', JStr geography),
                                  (''compliance'', JArr (map JStr (compliance_of input_lower)))]),
          (''constraints'', JObj [(''budget_sensitivity'', JStr (budget_sensitivity_of input_lower)),
                                 (''team_experience'', JStr (team_experience_of input_lower)),
                                 (''time_to_market'', JStr (time_to_market_of input_lower))]),
          (''parsing_confidence'', JFloat (confidence_of w user_input)),
          (''parsing_source'', JStr ''enhanced_mock''),
          (''llm_model'', JStr ''mock_heuristic_v1''),
          (''timestamp'', JStr (utcnow_isoformat w))])"

subsection \<open>Parsing an intent\<close>

definition response_text :: "response \<Rightarrow> string" where
  "response_text response =
     (case response of
        RText t \<Rightarrow> t
      | RParts parts \<Rightarrow> (case parts of [] \<Rightarrow> [] | part # _ \<Rightarrow> part)
      | RContentText t \<Rightarrow> t
      | ROther \<Rightarrow> []
      | RFalsy \<Rightarrow> [])"

text \<open>
  The three assignments of metadata after the validation; an assignment that raises ends
  them.
\<close>

definition add_metadata :: "gemini_client \<Rightarrow> shared \<Rightarrow> json \<Rightarrow> error + json" where
  "add_metadata self s result =
     (case json_set result ''parsing_source'' (JStr ''gemini_api'') of
        Inl e \<Rightarrow> Inl e
      | Inr r1 \<Rightarrow>
          (case json_set r1 ''llm_model'' (JStr (model_name self)) of
             Inl e \<Rightarrow> Inl e
           | Inr r2 \<Rightarrow> json_set r2 ''active_key'' (JStr (get_current_key_name s))))"

text \<open>
  \<open>\_parse\_with\_gemini\<close>. A \<open>JSONDecodeError\<close> raised inside its \<open>try\<close> is answered with
  the fallback parser; every other exception is raised again.
\<close>

definition parse_with_gemini :: "world \<Rightarrow> gemini_client \<Rightarrow> string \<Rightarrow> shared \<Rightarrow> (error + json) \<times> shared" where
  "parse_with_gemini w self user_input s =
     (let prompt = prompt_of w user_input
      in case call_with_retry (remote w) (backoff_jitter w) prompt 3 s of
           (Inl (RemoteError JSONDecodeError msg), s') \<Rightarrow> (Inr (JObj (enhanced_mock_parse w user_input)), s')
         | (Inl e, s') \<Rightarrow> (Inl e, s')
         | (Inr response, s') \<Rightarrow>
             if response = RFalsy
             then (Inl (ValueError ''Failed to get response after retries''), s')
             else if response_text response = []
             then (Inl (ValueError ''Could not extract text from Gemini response''), s')
             else (case extract_json_from_response (json_loads w) (response_text response) of
                     None \<Rightarrow> (Inl (ValueError ''Could not extract valid JSON from response''), s')
                   | Some json_text \<Rightarrow>
                       (case json_loads w json_text of
                          None \<Rightarrow> (Inr (JObj (enhanced_mock_parse w user_input)), s')
                        | Some result \<Rightarrow>
                            (case validate_intent_structure result of
                               Inl e \<Rightarrow> (Inl e, s')
                             | Inr _ \<Rightarrow> (add_metadata self s' result, s')))))"

text \<open>
  \<open>parse_intent\<close>: whatever is raised inside the \<open>try\<close> is caught, and the result is then
  the one of the fallback parser, marked \<open>MOCK_FALLBACK\<close>.
\<close>

definition fallback_result :: "world \<Rightarrow> string \<Rightarrow> json" where
  "fallback_result w user_input =
     JObj (AList.update ''active_key'' (JStr ''MOCK_FALLBACK'')
            (AList.update ''processing_time_ms'' (JInt (elapsed_ms w))
              (enhanced_mock_parse w user_input)))"

definition finish_result :: "world \<Rightarrow> shared \<Rightarrow> json \<Rightarrow> error + json" where
  "finish_result w s result =
     (case json_set result ''processing_time_ms'' (JInt (elapsed_ms w)) of
        Inl e \<Rightarrow> Inl e
      | Inr r1 \<Rightarrow> json_set r1 ''active_key'' (JStr (get_current_key_name s)))"

definition parse_intent :: "world \<Rightarrow> gemini_client \<Rightarrow> string \<Rightarrow> shared \<Rightarrow> (error + json) \<times> shared" where
  "parse_intent w self user_input s =
     (case parse_with_gemini w self user_input s of
        (Inl e, s') \<Rightarrow> (Inr (fallback_result w user_input), s')
      | (Inr result, s') \<Rightarrow>
          (case finish_result w s' result of
             Inl e \<Rightarrow> (Inr (fallback_result w user_input), s')
           | Inr r \<Rightarrow> (Inr r, s')))"

subsection \<open>Sequences of operations and shapes of traces\<close>

text \<open>
  The operations that change the class-level state: a construction, a rotation, a call
  of the dispatcher (which records the failure or the success of each attempt) and
  \<open>parse_intent\<close>.
\<close>

datatype operation =
    OpInit environ "string \<Rightarrow> client option" "string \<Rightarrow> int option" "string \<Rightarrow> real option"
  | OpRotate
  | OpDispatch transport "nat \<Rightarrow> real" string int
  | OpParse world gemini_client string

fun apply_operation :: "operation \<Rightarrow> shared \<Rightarrow> shared" where
  "apply_operation (OpInit env genai_client py_int py_float) s = snd (init env genai_client py_int py_float s)"
| "apply_operation OpRotate s = snd (rotate_to_next_key s)"
| "apply_operation (OpDispatch tr jitter prompt max_retries) s = snd (call_with_retry tr jitter prompt max_retries s)"
| "apply_operation (OpParse w self user_input) s = snd (parse_intent w self user_input s)"

fun run_operations :: "operation list \<Rightarrow> shared \<Rightarrow> shared" where
  "run_operations [] s = s"
| "run_operations (operation # rest) s = run_operations rest (apply_operation operation s)"

text \<open>
  An operation exhausts the ring when, in a pool that has not exactly one slot, its
  rotation finds no other usable slot: a rotation that returns false, or a dispatch that
  ends with \<open>All API keys quota exhausted\<close>.
\<close>

fun ring_exhausted :: "operation \<Rightarrow> shared \<Rightarrow> bool" where
  "ring_exhausted (OpInit env genai_client py_int py_float) s = False"
| "ring_exhausted OpRotate s =
     (length (api_keys_loaded s) \<noteq> 1 \<and> \<not> fst (rotate_to_next_key s))"
| "ring_exhausted (OpDispatch tr jitter prompt max_retries) s =
     (length (api_keys_loaded s) \<noteq> 1
      \<and> fst (call_with_retry tr jitter prompt max_retries s) =
          Inl (Exception ''All API keys quota exhausted''))"
| "ring_exhausted (OpParse w self user_input) s =
     (length (api_keys_loaded s) \<noteq> 1
      \<and> fst (call_with_retry (remote w) (backoff_jitter w) (prompt_of w user_input) 3 s) =
          Inl (Exception ''All API keys quota exhausted''))"

fun never_exhausted :: "operation list \<Rightarrow> shared \<Rightarrow> bool" where
  "never_exhausted [] s = True"
| "never_exhausted (operation # rest) s =
     (\<not> ring_exhausted operation s \<and> never_exhausted rest (apply_operation operation s))"

text \<open>The keys of the remote calls and the durations of the sleeps of a trace, in order.\<close>

fun called_keys :: "event list \<Rightarrow> key_name list" where
  "called_keys [] = []"
| "called_keys (Called k # es) = k # called_keys es"
| "called_keys (_ # es) = called_keys es"

fun delays :: "event list \<Rightarrow> real list" where
  "delays [] = []"
| "delays (Slept d # es) = d # delays es"
| "delays (_ # es) = delays es"

text \<open>
  Every sleep of the trace comes directly after a remote call on a key and a rotation
  from that key to another one.
\<close>

fun waits_follow_rotation :: "event list \<Rightarrow> bool" where
  "waits_follow_rotation [] = True"
| "waits_follow_rotation (Slept d # es) = False"
| "waits_follow_rotation (Called a # Rotated a' b # Slept d # es) =
     (a = a' \<and> a \<noteq> b \<and> waits_follow_rotation es)"
| "waits_follow_rotation (_ # es) = waits_follow_rotation es"

subsection \<open>Example configurations\<close>

text \<open>Pools as \<open>\_\_init\_\_\<close> builds them from one to four configured keys.\<close>

definition pool_of :: "(key_name \<times> string \<times> client option) list \<Rightarrow> shared" where
  "pool_of slots =
     \<lparr>shared_key_index = 0,
      shared_key_failures = map (\<lambda>(name, api_key, c). (name, 0)) slots,
      shared_clients = map (\<lambda>(name, api_key, c). (name, c)) slots,
      api_keys_loaded = map (\<lambda>(name, api_key, c). (name, api_key)) slots,
      all_keys_exhausted = False, trace = []\<rparr>"

definition one_key_pool :: shared where
  "one_key_pool = pool_of [(''PRIMARY'', ''key-p'', Some (Client ''key-p''))]"

definition two_key_pool :: shared where
  "two_key_pool = pool_of [(''PRIMARY'', ''key-p'', Some (Client ''key-p'')),
                           (''BACKUP_1'', ''key-b1'', Some (Client ''key-b1''))]"

definition four_key_pool :: shared where
  "four_key_pool = pool_of [(''PRIMARY'', ''key-p'', Some (Client ''key-p'')),
                            (''BACKUP_1'', ''key-b1'', Some (Client ''key-b1'')),
                            (''BACKUP_2'', ''key-b2'', Some (Client ''key-b2'')),
                            (''BACKUP_3'', ''key-b3'', Some (Client ''key-b3''))]"

text \<open>Two configured keys, the client of the second of which could not be built.\<close>

definition broken_backup_pool :: shared where
  "broken_backup_pool = pool_of [(''PRIMARY'', ''key-p'', Some (Client ''key-p'')),
                                 (''BACKUP_1'', ''key-b1'', None)]"

definition two_key_env :: environ where
  "two_key_env name =
     (if name = ''GEMINI_API_KEY'' then Some ''key-p''
      else if name = ''GEMINI_API_KEY_1'' then Some ''key-b1''
      else None)"

definition empty_env :: environ where
  "empty_env name = None"

text \<open>Conversions that know the two default settings, for the examples.\<close>

definition default_int :: "string \<Rightarrow> int option" where
  "default_int t = (if t = ''8192'' then Some 8192 else None)"

definition default_float :: "string \<Rightarrow> real option" where
  "default_float t = (if t = ''0.2'' then Some 0.2 else None)"

definition default_client :: gemini_client where
  "default_client = \<lparr>model_name = ''gemini-2.5-flash-lite'', max_tokens = 8192,
                      temperature = 0.2, mock_mode = False\<rparr>"

text \<open>Remote services: every call is answered with a quota error, or with a server error;
  or only the calls with the primary key are answered with a quota error.\<close>

definition always_quota :: transport where
  "always_quota n c prompt = Raises OtherError ''429 RESOURCE_EXHAUSTED''"

definition always_broken :: transport where
  "always_broken n c prompt = Raises OtherError ''500 INTERNAL''"

definition primary_quota :: transport where
  "primary_quota n c prompt =
     (if c = Client ''key-p'' then Raises OtherError ''429 RESOURCE_EXHAUSTED''
      else Returns (RText ''{}''))"

definition no_jitter :: "nat \<Rightarrow> real" where
  "no_jitter attempt = 0"

definition example_world :: world where
  "example_world =
     \<lparr>remote = always_quota, backoff_jitter = no_jitter, prompt_of = (\<lambda>user_input. user_input),
      json_loads = (\<lambda>t. None), choice_users = 0, randint_rps = 0, choice_traffic = 0,
      uniform_confidence = 1 / 2, elapsed_ms = 7, utcnow_isoformat = ''2025-01-01T00:00:00''\<rparr>"

section \<open>Properties\<close>

subsection \<open>What a rotation and a dispatch leave unchanged\<close>

lemmas pool_defs = get_current_client_def clients_get_def get_current_key_name_def
  get_key_name_at_def failures_get_def ncalls_def

lemma rotate_scan_keeps:
  "rotate_scan n k s = (b, s') \<Longrightarrow>
     api_keys_loaded s' = api_keys_loaded s \<and> shared_clients s' = shared_clients s
     \<and> shared_key_failures s' = shared_key_failures s
     \<and> all_keys_exhausted s' = all_keys_exhausted s"
proof (induction n arbitrary: s)
  case 0
  then show ?case by simp
next
  case (Suc n)
  let ?s1 = "s\<lparr>shared_key_index := (shared_key_index s + 1) mod length (api_keys_loaded s)\<rparr>"
  show ?case
  proof (cases "clients_get ?s1 (get_current_key_name ?s1) \<noteq> None \<and> get_current_key_name ?s1 \<noteq> k")
    case True
    with Suc.prems show ?thesis by (auto simp: Let_def)
  next
    case False
    with Suc.prems have "rotate_scan n k ?s1 = (b, s')" by (auto simp: Let_def)
    from Suc.IH[OF this] show ?thesis by simp
  qed
qed

lemma rotate_scan_index:
  "shared_key_index s < length (api_keys_loaded s) \<Longrightarrow> rotate_scan n k s = (b, s') \<Longrightarrow>
     shared_key_index s' < length (api_keys_loaded s')"
proof (induction n arbitrary: s)
  case 0
  then show ?case by simp
next
  case (Suc n)
  let ?s1 = "s\<lparr>shared_key_index := (shared_key_index s + 1) mod length (api_keys_loaded s)\<rparr>"
  have pos: "0 < length (api_keys_loaded s)" using Suc.prems(1) by (cases "api_keys_loaded s") auto
  have in1: "shared_key_index ?s1 < length (api_keys_loaded ?s1)" using pos by simp
  show ?case
  proof (cases "clients_get ?s1 (get_current_key_name ?s1) \<noteq> None \<and> get_current_key_name ?s1 \<noteq> k")
    case True
    with Suc.prems(2) in1 show ?thesis by (auto simp: Let_def)
  next
    case False
    with Suc.prems(2) have "rotate_scan n k ?s1 = (b, s')" by (auto simp: Let_def)
    from Suc.IH[OF in1 this] show ?thesis .
  qed
qed

lemma rotate_scan_true:
  "rotate_scan n k s = (True, s') \<Longrightarrow>
     get_current_client s' \<noteq> None \<and> get_current_key_name s' \<noteq> k
     \<and> trace s' = trace s @ [Rotated k (get_current_key_name s')]"
proof (induction n arbitrary: s)
  case 0
  then show ?case by simp
next
  case (Suc n)
  let ?s1 = "s\<lparr>shared_key_index := (shared_key_index s + 1) mod length (api_keys_loaded s)\<rparr>"
  show ?case
  proof (cases "clients_get ?s1 (get_current_key_name ?s1) \<noteq> None \<and> get_current_key_name ?s1 \<noteq> k")
    case True
    with Suc.prems show ?thesis by (auto simp: Let_def pool_defs)
  next
    case False
    with Suc.prems have "rotate_scan n k ?s1 = (True, s')" by (auto simp: Let_def)
    from Suc.IH[OF this] show ?thesis by simp
  qed
qed

lemma rotate_scan_false:
  "rotate_scan n k s = (False, s') \<Longrightarrow> trace s' = trace s"
proof (induction n arbitrary: s)
  case 0
  then show ?case by simp
next
  case (Suc n)
  let ?s1 = "s\<lparr>shared_key_index := (shared_key_index s + 1) mod length (api_keys_loaded s)\<rparr>"
  show ?case
  proof (cases "clients_get ?s1 (get_current_key_name ?s1) \<noteq> None \<and> get_current_key_name ?s1 \<noteq> k")
    case True
    with Suc.prems show ?thesis by (auto simp: Let_def)
  next
    case False
    with Suc.prems have "rotate_scan n k ?s1 = (False, s')" by (auto simp: Let_def)
    from Suc.IH[OF this] show ?thesis by simp
  qed
qed

lemma rotate_keeps:
  "rotate_to_next_key s = (b, s') \<Longrightarrow>
     api_keys_loaded s' = api_keys_loaded s \<and> shared_clients s' = shared_clients s
     \<and> shared_key_failures s' = shared_key_failures s
     \<and> all_keys_exhausted s' = all_keys_exhausted s"
  by (auto simp: rotate_to_next_key_def Let_def split: if_splits dest: rotate_scan_keeps)

lemma rotate_index:
  "shared_key_index s < length (api_keys_loaded s) \<Longrightarrow> rotate_to_next_key s = (b, s') \<Longrightarrow>
     shared_key_index s' < length (api_keys_loaded s')"
  by (auto simp: rotate_to_next_key_def Let_def split: if_splits dest: rotate_scan_index)

lemma rotate_true:
  "rotate_to_next_key s = (True, s') \<Longrightarrow>
     get_current_client s' \<noteq> None \<and> get_current_key_name s' \<noteq> get_current_key_name s
     \<and> trace s' = trace s @ [Rotated (get_current_key_name s) (get_current_key_name s')]"
  by (auto simp: rotate_to_next_key_def Let_def get_key_name_at_def get_current_key_name_def[of s]
      split: if_splits dest!: rotate_scan_true)

lemma rotate_false:
  "rotate_to_next_key s = (False, s') \<Longrightarrow> trace s' = trace s"
  by (auto simp: rotate_to_next_key_def Let_def split: if_splits dest: rotate_scan_false)


lemma attempt_body_keeps:
  assumes "attempt_body tr jitter prompt attempt s = (st, s')"
  shows "api_keys_loaded s' = api_keys_loaded s \<and> shared_clients s' = shared_clients s"
proof (cases "all_keys_exhausted s")
  case True
  with assms show ?thesis by (simp add: attempt_body_def)
next
  case live: False
  show ?thesis
  proof (cases "get_current_client s")
    case None
    with live assms have "s' = snd (rotate_to_next_key s)" by (auto simp: attempt_body_def)
    then show ?thesis using rotate_keeps[of s "fst (rotate_to_next_key s)" s'] by simp
  next
    case (Some c)
    let ?k = "get_current_key_name s"
    let ?s1 = "s\<lparr>trace := trace s @ [Called ?k]\<rparr>"
    show ?thesis
    proof (cases "tr (ncalls s) c prompt")
      case (Returns r)
      with live Some assms show ?thesis by (auto simp: attempt_body_def Let_def)
    next
      case (Raises cls e)
      let ?s2 = "?s1\<lparr>shared_key_failures := AList.update ?k (failures_get ?s1 ?k + 1) (shared_key_failures ?s1)\<rparr>"
      show ?thesis
      proof (cases "is_quota e")
        case False
        with live Some Raises assms show ?thesis by (auto simp: attempt_body_def Let_def)
      next
        case True
        obtain b s3 where rot: "rotate_to_next_key ?s2 = (b, s3)" by (cases "rotate_to_next_key ?s2")
        from rotate_keeps[OF rot] have "api_keys_loaded s3 = api_keys_loaded s \<and> shared_clients s3 = shared_clients s"
          by simp
        with live Some Raises True rot assms show ?thesis
          by (cases b) (auto simp: attempt_body_def Let_def)
      qed
    qed
  qed
qed

lemma attempt_body_index:
  assumes "attempt_body tr jitter prompt attempt s = (st, s')"
    and "shared_key_index s < length (api_keys_loaded s)"
  shows "shared_key_index s' < length (api_keys_loaded s')"
proof (cases "all_keys_exhausted s")
  case True
  with assms show ?thesis by (simp add: attempt_body_def)
next
  case live: False
  show ?thesis
  proof (cases "get_current_client s")
    case None
    with live assms have "s' = snd (rotate_to_next_key s)" by (auto simp: attempt_body_def)
    then show ?thesis using rotate_index[of s "fst (rotate_to_next_key s)" s'] assms(2) by simp
  next
    case (Some c)
    let ?k = "get_current_key_name s"
    let ?s1 = "s\<lparr>trace := trace s @ [Called ?k]\<rparr>"
    show ?thesis
    proof (cases "tr (ncalls s) c prompt")
      case (Returns r)
      with live Some assms show ?thesis by (auto simp: attempt_body_def Let_def)
    next
      case (Raises cls e)
      let ?s2 = "?s1\<lparr>shared_key_failures := AList.update ?k (failures_get ?s1 ?k + 1) (shared_key_failures ?s1)\<rparr>"
      show ?thesis
      proof (cases "is_quota e")
        case False
        with live Some Raises assms show ?thesis by (auto simp: attempt_body_def Let_def)
      next
        case True
        obtain b s3 where rot: "rotate_to_next_key ?s2 = (b, s3)" by (cases "rotate_to_next_key ?s2")
        have "shared_key_index ?s2 < length (api_keys_loaded ?s2)" using assms(2) by simp
        from rotate_index[OF this rot] have "shared_key_index s3 < length (api_keys_loaded s3)" .
        with live Some Raises True rot assms show ?thesis
          by (cases b) (auto simp: attempt_body_def Let_def)
      qed
    qed
  qed
qed

lemma retry_loop_keeps:
  "retry_loop tr jitter prompt left attempt last_error s = (r, s') \<Longrightarrow>
     api_keys_loaded s' = api_keys_loaded s \<and> shared_clients s' = shared_clients s"
proof (induction left arbitrary: attempt last_error s)
  case 0
  then show ?case by simp
next
  case (Suc left)
  obtain st s1 where body: "attempt_body tr jitter prompt attempt s = (st, s1)"
    by (cases "attempt_body tr jitter prompt attempt s")
  note keep1 = attempt_body_keeps[OF body]
  show ?case
  proof (cases st)
    case (Return x)
    with Suc.prems body keep1 show ?thesis by auto
  next
    case (Raise x)
    with Suc.prems body keep1 show ?thesis by auto
  next
    case (Continue upd)
    with Suc.prems body
    have "retry_loop tr jitter prompt left (Suc attempt) (case upd of None \<Rightarrow> last_error | Some e \<Rightarrow> Some e) s1 = (r, s')"
      by simp
    from Suc.IH[OF this] keep1 show ?thesis by simp
  qed
qed

lemma retry_loop_index:
  "retry_loop tr jitter prompt left attempt last_error s = (r, s') \<Longrightarrow>
   shared_key_index s < length (api_keys_loaded s) \<Longrightarrow>
     shared_key_index s' < length (api_keys_loaded s')"
proof (induction left arbitrary: attempt last_error s)
  case 0
  then show ?case by simp
next
  case (Suc left)
  obtain st s1 where body: "attempt_body tr jitter prompt attempt s = (st, s1)"
    by (cases "attempt_body tr jitter prompt attempt s")
  note in1 = attempt_body_index[OF body Suc.prems(2)]
  show ?case
  proof (cases st)
    case (Return x)
    with Suc.prems body in1 show ?thesis by auto
  next
    case (Raise x)
    with Suc.prems body in1 show ?thesis by auto
  next
    case (Continue upd)
    with Suc.prems body
    have "retry_loop tr jitter prompt left (Suc attempt) (case upd of None \<Rightarrow> last_error | Some e \<Rightarrow> Some e) s1 = (r, s')"
      by simp
    from Suc.IH[OF this in1] show ?thesis .
  qed
qed

lemma call_with_retry_keeps:
  "call_with_retry tr jitter prompt max_retries s = (r, s') \<Longrightarrow>
     api_keys_loaded s' = api_keys_loaded s \<and> shared_clients s' = shared_clients s"
  by (auto simp: call_with_retry_def split: if_splits dest: retry_loop_keeps)

lemma call_with_retry_index:
  "call_with_retry tr jitter prompt max_retries s = (r, s') \<Longrightarrow>
   shared_key_index s < length (api_keys_loaded s) \<Longrightarrow>
     shared_key_index s' < length (api_keys_loaded s')"
  by (auto simp: call_with_retry_def split: if_splits dest: retry_loop_index)

lemma parse_with_gemini_state:
  "snd (parse_with_gemini w self user_input s) =
     snd (call_with_retry (remote w) (backoff_jitter w) (prompt_of w user_input) 3 s)"
  by (simp add: parse_with_gemini_def Let_def
      split: prod.splits sum.splits error.splits exc_class.splits option.splits)

lemma parse_intent_state:
  "snd (parse_intent w self user_input s) =
     snd (call_with_retry (remote w) (backoff_jitter w) (prompt_of w user_input) 3 s)"
  using parse_with_gemini_state[of w self user_input s]
  by (auto simp: parse_intent_def split: prod.splits sum.splits)

lemma init_keeps:
  "api_keys_loaded s \<noteq> [] \<Longrightarrow> snd (init env genai_client py_int py_float s) = s"
  by (simp add: init_def Let_def split: option.splits)

lemma apply_operation_keeps:
  assumes "shared_key_index s < length (api_keys_loaded s)"
  shows "shared_key_index (apply_operation operation s) < length (api_keys_loaded (apply_operation operation s))
       \<and> api_keys_loaded (apply_operation operation s) = api_keys_loaded s
       \<and> shared_clients (apply_operation operation s) = shared_clients s"
proof (cases operation)
  case (OpInit env genai_client py_int py_float)
  have "api_keys_loaded s \<noteq> []" using assms by (cases "api_keys_loaded s") auto
  with OpInit assms show ?thesis by (simp add: init_keeps)
next
  case OpRotate
  obtain b s' where rot: "rotate_to_next_key s = (b, s')" by (cases "rotate_to_next_key s")
  from rotate_keeps[OF rot] rotate_index[OF assms rot] OpRotate rot show ?thesis by simp
next
  case (OpDispatch tr jitter prompt max_retries)
  obtain r s' where run: "call_with_retry tr jitter prompt max_retries s = (r, s')"
    by (cases "call_with_retry tr jitter prompt max_retries s")
  from call_with_retry_keeps[OF run] call_with_retry_index[OF run assms] OpDispatch run
  show ?thesis by simp
next
  case (OpParse w self user_input)
  obtain r s' where run: "call_with_retry (remote w) (backoff_jitter w) (prompt_of w user_input) 3 s = (r, s')"
    by (cases "call_with_retry (remote w) (backoff_jitter w) (prompt_of w user_input) 3 s")
  from call_with_retry_keeps[OF run] call_with_retry_index[OF run assms] OpParse run
  show ?thesis by (simp add: parse_intent_state)
qed

lemma run_operations_index:
  "shared_key_index s < length (api_keys_loaded s) \<Longrightarrow>
     shared_key_index (run_operations ops s) < length (api_keys_loaded (run_operations ops s))"
proof (induction ops arbitrary: s)
  case Nil
  then show ?case by simp
next
  case (Cons operation ops)
  from apply_operation_keeps[OF Cons.prems, of operation]
  have "shared_key_index (apply_operation operation s) < length (api_keys_loaded (apply_operation operation s))"
    by blast
  from Cons.IH[OF this] show ?case by simp
qed

lemma run_operations_pool:
  "shared_key_index s < length (api_keys_loaded s) \<Longrightarrow>
     api_keys_loaded (run_operations ops s) = api_keys_loaded s
     \<and> shared_clients (run_operations ops s) = shared_clients s"
proof (induction ops arbitrary: s)
  case Nil
  then show ?case by simp
next
  case (Cons operation ops)
  note step = apply_operation_keeps[OF Cons.prems, of operation]
  then have "shared_key_index (apply_operation operation s) < length (api_keys_loaded (apply_operation operation s))"
    by blast
  from Cons.IH[OF this] step show ?case by simp
qed

subsection \<open>The shape of the trace of a dispatch\<close>

lemma delays_append: "delays (xs @ ys) = delays xs @ delays ys"
  by (induction xs rule: delays.induct) simp_all

lemma waits_after_rotation: "waits_follow_rotation (Rotated a b # es) = waits_follow_rotation es"
  by simp

lemma attempt_body_trace:
  assumes "attempt_body tr jitter prompt attempt s = (st, s')"
  shows "\<exists>es. trace s' = trace s @ es \<and>
     (case st of
        Continue upd \<Rightarrow>
          (es = [] \<or> (\<exists>a b. es = [Rotated a b])
           \<or> (\<exists>k b. es = [Called k, Rotated k b, Slept (2 ^ attempt + jitter attempt)] \<and> k \<noteq> b))
          \<and> (\<forall>e. upd = Some e \<longrightarrow> (\<exists>c m. e = RemoteError c m))
      | Return r \<Rightarrow> (\<exists>k. es = [Called k])
      | Raise e \<Rightarrow> (es = [] \<and> e \<noteq> Exception ''All API keys quota exhausted'') \<or> (\<exists>k. es = [Called k]))"
proof (cases "all_keys_exhausted s")
  case True
  with assms show ?thesis by (auto simp: attempt_body_def)
next
  case live: False
  show ?thesis
  proof (cases "get_current_client s")
    case None
    obtain b s1 where rot: "rotate_to_next_key s = (b, s1)" by (cases "rotate_to_next_key s")
    with live None assms have st: "st = Continue None" "s' = s1" by (auto simp: attempt_body_def)
    show ?thesis
    proof (cases b)
      case True
      with rot rotate_true[of s s1] st show ?thesis by auto
    next
      case False
      with rot rotate_false[of s s1] st show ?thesis by auto
    qed
  next
    case (Some c)
    let ?k = "get_current_key_name s"
    let ?s1 = "s\<lparr>trace := trace s @ [Called ?k]\<rparr>"
    show ?thesis
    proof (cases "tr (ncalls s) c prompt")
      case (Returns r)
      with live Some assms show ?thesis by (auto simp: attempt_body_def Let_def)
    next
      case (Raises cls e)
      let ?s2 = "?s1\<lparr>shared_key_failures := AList.update ?k (failures_get ?s1 ?k + 1) (shared_key_failures ?s1)\<rparr>"
      have k2: "get_current_key_name ?s2 = ?k" by (simp add: get_current_key_name_def)
      show ?thesis
      proof (cases "is_quota e")
        case False
        with live Some Raises assms show ?thesis by (auto simp: attempt_body_def Let_def)
      next
        case True
        obtain b s3 where rot: "rotate_to_next_key ?s2 = (b, s3)" by (cases "rotate_to_next_key ?s2")
        show ?thesis
        proof (cases b)
          case True
          from rotate_true[of ?s2 s3] rot True k2
          have t3: "trace s3 = trace s @ [Called ?k, Rotated ?k (get_current_key_name s3)]"
            and ne: "get_current_key_name s3 \<noteq> ?k" by auto
          from live Some Raises \<open>is_quota e\<close> rot True assms
          have "st = Continue (Some (RemoteError cls e))"
            and "s' = s3\<lparr>trace := trace s3 @ [Slept (2 ^ attempt + jitter attempt)]\<rparr>"
            by (auto simp: attempt_body_def Let_def)
          with t3 ne show ?thesis by auto
        next
          case False
          from rotate_false[of ?s2 s3] rot False have t3: "trace s3 = trace s @ [Called ?k]" by auto
          from live Some Raises \<open>is_quota e\<close> rot False assms
          have "st = Raise (Exception ''All API keys quota exhausted'')"
            and "s' = s3\<lparr>all_keys_exhausted := True\<rparr>"
            by (auto simp: attempt_body_def Let_def)
          with t3 show ?thesis by auto
        qed
      qed
    qed
  qed
qed

lemma retry_loop_trace:
  "retry_loop tr jitter prompt left attempt last_error s = (r, s') \<Longrightarrow>
   (\<forall>e. last_error = Some e \<longrightarrow> (\<exists>c m. e = RemoteError c m)) \<Longrightarrow>
     \<exists>es. trace s' = trace s @ es \<and> waits_follow_rotation es
        \<and> (\<forall>d\<in>set (delays es). \<exists>n. attempt \<le> n \<and> n < attempt + left \<and> d = 2 ^ n + jitter n)
        \<and> (r = Inl (Exception ''All API keys quota exhausted'') \<longrightarrow> es \<noteq> [] \<and> is_call (last es))"
proof (induction left arbitrary: attempt last_error s)
  case 0
  then show ?case by (auto split: option.splits)
next
  case (Suc left)
  obtain st s1 where body: "attempt_body tr jitter prompt attempt s = (st, s1)"
    by (cases "attempt_body tr jitter prompt attempt s")
  from attempt_body_trace[OF body] obtain es1 where es1: "trace s1 = trace s @ es1"
    and shape: "(case st of
        Continue upd \<Rightarrow>
          (es1 = [] \<or> (\<exists>a b. es1 = [Rotated a b])
           \<or> (\<exists>k b. es1 = [Called k, Rotated k b, Slept (2 ^ attempt + jitter attempt)] \<and> k \<noteq> b))
          \<and> (\<forall>e. upd = Some e \<longrightarrow> (\<exists>c m. e = RemoteError c m))
      | Return r \<Rightarrow> (\<exists>k. es1 = [Called k])
      | Raise e \<Rightarrow> (es1 = [] \<and> e \<noteq> Exception ''All API keys quota exhausted'') \<or> (\<exists>k. es1 = [Called k]))"
    by blast
  show ?case
  proof (cases st)
    case (Return x)
    with Suc.prems(1) body have "r = Inr x" "s' = s1" by auto
    with es1 shape Return show ?thesis by auto
  next
    case (Raise e)
    with Suc.prems(1) body have "r = Inl e" "s' = s1" by auto
    with es1 shape Raise show ?thesis by auto
  next
    case (Continue upd)
    let ?l = "case upd of None \<Rightarrow> last_error | Some e \<Rightarrow> Some e"
    from Continue Suc.prems(1) body
    have rest: "retry_loop tr jitter prompt left (Suc attempt) ?l s1 = (r, s')" by simp
    from Continue shape Suc.prems(2)
    have lok: "\<forall>e. ?l = Some e \<longrightarrow> (\<exists>c m. e = RemoteError c m)" by (auto split: option.splits)
    from Suc.IH[OF rest lok] obtain es2 where es2: "trace s' = trace s1 @ es2"
      and w2: "waits_follow_rotation es2"
      and d2: "\<forall>d\<in>set (delays es2). \<exists>n. Suc attempt \<le> n \<and> n < Suc attempt + left \<and> d = 2 ^ n + jitter n"
      and x2: "r = Inl (Exception ''All API keys quota exhausted'') \<longrightarrow> es2 \<noteq> [] \<and> is_call (last es2)"
      by blast
    have d2': "\<forall>d\<in>set (delays es2). \<exists>n. attempt \<le> n \<and> n < attempt + Suc left \<and> d = 2 ^ n + jitter n"
    proof
      fix d assume "d \<in> set (delays es2)"
      with d2 obtain n where "Suc attempt \<le> n" "n < Suc attempt + left" "d = 2 ^ n + jitter n" by blast
      then show "\<exists>n. attempt \<le> n \<and> n < attempt + Suc left \<and> d = 2 ^ n + jitter n"
        by (intro exI[of _ n]) simp
    qed
    from Continue shape consider (none) "es1 = []" | (rot) a b where "es1 = [Rotated a b]"
      | (wait) k b where "es1 = [Called k, Rotated k b, Slept (2 ^ attempt + jitter attempt)]" "k \<noteq> b"
      by auto
    then show ?thesis
    proof cases
      case none
      with es1 es2 w2 d2' x2 show ?thesis by auto
    next
      case rot
      with es1 es2 w2 d2' x2 show ?thesis
        by (intro exI[of _ "es1 @ es2"]) (auto simp: delays_append)
    next
      case wait
      have here: "\<exists>n. attempt \<le> n \<and> n < attempt + Suc left \<and> 2 ^ attempt + jitter attempt = 2 ^ n + jitter n"
        by (intro exI[of _ attempt]) simp
      from wait es1 es2 w2 d2' x2 here show ?thesis
        by (intro exI[of _ "es1 @ es2"]) (auto simp: delays_append)
    qed
  qed
qed

subsection \<open>What keeps the current slot usable\<close>

lemma current_client_cong:
  "shared_key_index s' = shared_key_index s \<Longrightarrow> api_keys_loaded s' = api_keys_loaded s \<Longrightarrow>
   shared_clients s' = shared_clients s \<Longrightarrow> get_current_client s' = get_current_client s"
  by (simp add: pool_defs)

lemma rotate_single:
  "length (api_keys_loaded s) = 1 \<Longrightarrow> rotate_to_next_key s = (False, s)"
  by (simp add: rotate_to_next_key_def)

lemma attempt_body_usable:
  assumes "attempt_body tr jitter prompt attempt s = (st, s')"
    and "get_current_client s \<noteq> None"
  shows "get_current_client s' \<noteq> None
       \<or> (st = Raise (Exception ''All API keys quota exhausted'') \<and> length (api_keys_loaded s) \<noteq> 1)"
proof (cases "all_keys_exhausted s")
  case True
  with assms show ?thesis by (simp add: attempt_body_def)
next
  case live: False
  from assms(2) obtain c where c: "get_current_client s = Some c" by auto
  let ?k = "get_current_key_name s"
  let ?s1 = "s\<lparr>trace := trace s @ [Called ?k]\<rparr>"
  show ?thesis
  proof (cases "tr (ncalls s) c prompt")
    case (Returns r)
    with live c assms(1) have "s' = ?s1\<lparr>shared_key_failures := AList.update ?k 0 (shared_key_failures ?s1)\<rparr>"
      by (auto simp: attempt_body_def Let_def)
    then have "get_current_client s' = get_current_client s" by (simp add: pool_defs)
    with assms(2) show ?thesis by simp
  next
    case (Raises cls e)
    let ?s2 = "?s1\<lparr>shared_key_failures := AList.update ?k (failures_get ?s1 ?k + 1) (shared_key_failures ?s1)\<rparr>"
    have u2: "get_current_client ?s2 = get_current_client s" by (simp add: pool_defs)
    show ?thesis
    proof (cases "is_quota e")
      case False
      with live c Raises assms(1) have "s' = ?s2" by (auto simp: attempt_body_def Let_def)
      with u2 assms(2) show ?thesis by simp
    next
      case True
      obtain b s3 where rot: "rotate_to_next_key ?s2 = (b, s3)" by (cases "rotate_to_next_key ?s2")
      show ?thesis
      proof (cases b)
        case True
        from rotate_true[of ?s2 s3] rot True have u3: "get_current_client s3 \<noteq> None" by simp
        from live c Raises \<open>is_quota e\<close> rot True assms(1)
        have "s' = s3\<lparr>trace := trace s3 @ [Slept (2 ^ attempt + jitter attempt)]\<rparr>"
          by (auto simp: attempt_body_def Let_def)
        then have "get_current_client s' = get_current_client s3" by (simp add: pool_defs)
        with u3 show ?thesis by simp
      next
        case False
        from live c Raises \<open>is_quota e\<close> rot False assms(1)
        have st: "st = Raise (Exception ''All API keys quota exhausted'')"
          and s': "s' = s3\<lparr>all_keys_exhausted := True\<rparr>"
          by (auto simp: attempt_body_def Let_def)
        show ?thesis
        proof (cases "length (api_keys_loaded s) = 1")
          case True
          then have "length (api_keys_loaded ?s2) = 1" by simp
          from rotate_single[OF this] rot have "s3 = ?s2" by simp
          with s' have "get_current_client s' = get_current_client s" by (simp add: pool_defs)
          with assms(2) show ?thesis by simp
        next
          case False
          with st show ?thesis by simp
        qed
      qed
    qed
  qed
qed

lemma retry_loop_usable:
  "retry_loop tr jitter prompt left attempt last_error s = (r, s') \<Longrightarrow>
   get_current_client s \<noteq> None \<Longrightarrow>
     get_current_client s' \<noteq> None
     \<or> (r = Inl (Exception ''All API keys quota exhausted'') \<and> length (api_keys_loaded s) \<noteq> 1)"
proof (induction left arbitrary: attempt last_error s)
  case 0
  then show ?case by simp
next
  case (Suc left)
  obtain st s1 where body: "attempt_body tr jitter prompt attempt s = (st, s1)"
    by (cases "attempt_body tr jitter prompt attempt s")
  note u1 = attempt_body_usable[OF body Suc.prems(2)]
  note k1 = attempt_body_keeps[OF body]
  show ?case
  proof (cases st)
    case (Return x)
    with Suc.prems(1) body u1 show ?thesis by auto
  next
    case (Raise e)
    with Suc.prems(1) body u1 show ?thesis by auto
  next
    case (Continue upd)
    with u1 have us1: "get_current_client s1 \<noteq> None" by simp
    from Continue Suc.prems(1) body
    have "retry_loop tr jitter prompt left (Suc attempt) (case upd of None \<Rightarrow> last_error | Some e \<Rightarrow> Some e) s1 = (r, s')"
      by simp
    from Suc.IH[OF this us1] k1 show ?thesis by simp
  qed
qed

lemma call_with_retry_usable:
  "get_current_client s \<noteq> None \<Longrightarrow>
     get_current_client (snd (call_with_retry tr jitter prompt max_retries s)) \<noteq> None
     \<or> (fst (call_with_retry tr jitter prompt max_retries s) = Inl (Exception ''All API keys quota exhausted'')
         \<and> length (api_keys_loaded s) \<noteq> 1)"
proof (cases "all_keys_exhausted s")
  case True
  assume "get_current_client s \<noteq> None"
  with True show ?thesis by (simp add: call_with_retry_def)
next
  case False
  assume u: "get_current_client s \<noteq> None"
  obtain r s' where run: "retry_loop tr jitter prompt (nat max_retries) 0 None s = (r, s')"
    by (cases "retry_loop tr jitter prompt (nat max_retries) 0 None s")
  from retry_loop_usable[OF run u] False run show ?thesis by (simp add: call_with_retry_def)
qed

lemma apply_operation_usable:
  assumes "shared_key_index s < length (api_keys_loaded s)"
    and "get_current_client s \<noteq> None"
    and "\<not> ring_exhausted operation s"
  shows "get_current_client (apply_operation operation s) \<noteq> None"
proof (cases operation)
  case (OpInit env genai_client py_int py_float)
  have "api_keys_loaded s \<noteq> []" using assms(1) by (cases "api_keys_loaded s") auto
  with OpInit assms(2) show ?thesis by (simp add: init_keeps)
next
  case OpRotate
  show ?thesis
  proof (cases "length (api_keys_loaded s) = 1")
    case True
    from rotate_single[OF this] OpRotate assms(2) show ?thesis by simp
  next
    case False
    with OpRotate assms(3) have "fst (rotate_to_next_key s)" by simp
    then have "rotate_to_next_key s = (True, snd (rotate_to_next_key s))"
      by (cases "rotate_to_next_key s") simp
    from rotate_true[OF this] OpRotate show ?thesis by simp
  qed
next
  case (OpDispatch tr jitter prompt max_retries)
  with call_with_retry_usable[OF assms(2), of tr jitter prompt max_retries] assms(3)
  show ?thesis by auto
next
  case (OpParse w self user_input)
  with call_with_retry_usable[OF assms(2), of "remote w" "backoff_jitter w" "prompt_of w user_input" 3] assms(3)
  show ?thesis by (auto simp: parse_intent_state)
qed

lemma run_operations_usable:
  "shared_key_index s < length (api_keys_loaded s) \<Longrightarrow> get_current_client s \<noteq> None \<Longrightarrow>
   never_exhausted ops s \<Longrightarrow> get_current_client (run_operations ops s) \<noteq> None"
proof (induction ops arbitrary: s)
  case Nil
  then show ?case by simp
next
  case (Cons operation ops)
  from Cons.prems(3) have ne: "\<not> ring_exhausted operation s"
    and rest: "never_exhausted ops (apply_operation operation s)" by simp_all
  from apply_operation_keeps[OF Cons.prems(1), of operation]
  have i1: "shared_key_index (apply_operation operation s) < length (api_keys_loaded (apply_operation operation s))"
    by blast
  from apply_operation_usable[OF Cons.prems(1,2) ne]
  have u1: "get_current_client (apply_operation operation s) \<noteq> None" .
  from Cons.IH[OF i1 u1 rest] show ?case by simp
qed

subsection \<open>The delay of each attempt\<close>

lemma attempt_body_sleep:
  assumes "attempt_body tr jitter prompt attempt s = (st, s')"
  shows "\<exists>es. trace s' = trace s @ es \<and>
           delays es = (case st of Continue (Some e) \<Rightarrow> [2 ^ attempt + jitter attempt] | _ \<Rightarrow> [])
         \<and> (get_current_client s \<noteq> None \<longrightarrow> st \<noteq> Continue None)"
proof (cases "all_keys_exhausted s")
  case True
  with assms show ?thesis by (auto simp: attempt_body_def)
next
  case live: False
  show ?thesis
  proof (cases "get_current_client s")
    case None
    obtain b s1 where rot: "rotate_to_next_key s = (b, s1)" by (cases "rotate_to_next_key s")
    with live None assms have st: "st = Continue None" "s' = s1" by (auto simp: attempt_body_def)
    show ?thesis
    proof (cases b)
      case True
      with rot rotate_true[of s s1] st None show ?thesis by auto
    next
      case False
      with rot rotate_false[of s s1] st None show ?thesis by auto
    qed
  next
    case (Some c)
    let ?k = "get_current_key_name s"
    let ?s1 = "s\<lparr>trace := trace s @ [Called ?k]\<rparr>"
    show ?thesis
    proof (cases "tr (ncalls s) c prompt")
      case (Returns r)
      with live Some assms show ?thesis by (auto simp: attempt_body_def Let_def)
    next
      case (Raises cls e)
      let ?s2 = "?s1\<lparr>shared_key_failures := AList.update ?k (failures_get ?s1 ?k + 1) (shared_key_failures ?s1)\<rparr>"
      show ?thesis
      proof (cases "is_quota e")
        case False
        with live Some Raises assms show ?thesis by (auto simp: attempt_body_def Let_def)
      next
        case True
        obtain b s3 where rot: "rotate_to_next_key ?s2 = (b, s3)" by (cases "rotate_to_next_key ?s2")
        show ?thesis
        proof (cases b)
          case True
          from rotate_true[of ?s2 s3] rot True
          have t3: "trace s3 = trace s @ [Called ?k, Rotated (get_current_key_name ?s2) (get_current_key_name s3)]"
            by auto
          from live Some Raises \<open>is_quota e\<close> rot True assms
          have "st = Continue (Some (RemoteError cls e))"
            and "s' = s3\<lparr>trace := trace s3 @ [Slept (2 ^ attempt + jitter attempt)]\<rparr>"
            by (auto simp: attempt_body_def Let_def)
          with t3 show ?thesis by auto
        next
          case False
          from rotate_false[of ?s2 s3] rot False have t3: "trace s3 = trace s @ [Called ?k]" by auto
          from live Some Raises \<open>is_quota e\<close> rot False assms
          have "st = Raise (Exception ''All API keys quota exhausted'')"
            and "s' = s3\<lparr>all_keys_exhausted := True\<rparr>"
            by (auto simp: attempt_body_def Let_def)
          with t3 show ?thesis by auto
        qed
      qed
    qed
  qed
qed

lemma retry_loop_delays:
  "retry_loop tr jitter prompt left attempt last_error s = (r, s') \<Longrightarrow>
     \<exists>es ns. trace s' = trace s @ es
        \<and> delays es = map (\<lambda>n. 2 ^ n + jitter n) ns
        \<and> sorted_wrt (<) ns
        \<and> (\<forall>n\<in>set ns. attempt \<le> n \<and> n < attempt + left)
        \<and> (get_current_client s \<noteq> None \<longrightarrow> ns = [attempt..<attempt + length ns])"
proof (induction left arbitrary: attempt last_error s)
  case 0
  then have "trace s' = trace s @ []" by simp
  then show ?case by (intro exI[of _ "[]"]) simp
next
  case (Suc left)
  obtain st s1 where body: "attempt_body tr jitter prompt attempt s = (st, s1)"
    by (cases "attempt_body tr jitter prompt attempt s")
  from attempt_body_sleep[OF body] obtain es1 where es1: "trace s1 = trace s @ es1"
    and d1: "delays es1 = (case st of Continue (Some e) \<Rightarrow> [2 ^ attempt + jitter attempt] | _ \<Rightarrow> [])"
    and c1: "get_current_client s \<noteq> None \<longrightarrow> st \<noteq> Continue None"
    by blast
  show ?case
  proof (cases st)
    case (Return x)
    with Suc.prems body have "s' = s1" by auto
    with es1 d1 Return show ?thesis by (intro exI[of _ es1] exI[of _ "[]"]) simp
  next
    case (Raise e)
    with Suc.prems body have "s' = s1" by auto
    with es1 d1 Raise show ?thesis by (intro exI[of _ es1] exI[of _ "[]"]) simp
  next
    case (Continue upd)
    let ?l = "case upd of None \<Rightarrow> last_error | Some e \<Rightarrow> Some e"
    from Continue Suc.prems body
    have rest: "retry_loop tr jitter prompt left (Suc attempt) ?l s1 = (r, s')" by simp
    from Suc.IH[OF rest] obtain es2 ns2 where es2: "trace s' = trace s1 @ es2"
      and d2: "delays es2 = map (\<lambda>n. 2 ^ n + jitter n) ns2"
      and o2: "sorted_wrt (<) ns2"
      and b2: "\<forall>n\<in>set ns2. Suc attempt \<le> n \<and> n < Suc attempt + left"
      and u2: "get_current_client s1 \<noteq> None \<longrightarrow> ns2 = [Suc attempt..<Suc attempt + length ns2]"
      by blast
    show ?thesis
    proof (cases upd)
      case None
      with Continue d1 have d1': "delays es1 = []" by simp
      from None Continue c1 have nou: "get_current_client s = None" by auto
      have bnd: "\<forall>n\<in>set ns2. attempt \<le> n \<and> n < attempt + Suc left" using b2 by auto
      from es1 es2 d1' d2 o2 bnd nou show ?thesis
        by (intro exI[of _ "es1 @ es2"] exI[of _ ns2]) (simp add: delays_append)
    next
      case (Some e)
      with Continue d1 have d1': "delays es1 = [2 ^ attempt + jitter attempt]" by simp
      have bnd: "\<forall>n\<in>set (attempt # ns2). attempt \<le> n \<and> n < attempt + Suc left" using b2 by auto
      have ord: "sorted_wrt (<) (attempt # ns2)" using o2 b2 by auto
      have us: "get_current_client s \<noteq> None \<longrightarrow> attempt # ns2 = [attempt..<attempt + length (attempt # ns2)]"
      proof
        assume u: "get_current_client s \<noteq> None"
        from attempt_body_usable[OF body u] Continue have "get_current_client s1 \<noteq> None" by simp
        with u2 have full: "ns2 = [Suc attempt..<Suc attempt + length ns2]" by blast
        define k where "k = length ns2"
        from full have n: "ns2 = [Suc attempt..<Suc attempt + k]" unfolding k_def .
        have "[attempt..<attempt + Suc k] = attempt # [Suc attempt..<Suc attempt + k]"
          by (simp add: upt_conv_Cons)
        with n have "attempt # ns2 = [attempt..<attempt + Suc k]" by simp
        then show "attempt # ns2 = [attempt..<attempt + length (attempt # ns2)]"
          unfolding k_def by simp
      qed
      from es1 es2 d1' d2 ord bnd us show ?thesis
        by (intro exI[of _ "es1 @ es2"] exI[of _ "attempt # ns2"]) (simp add: delays_append)
    qed
  qed
qed

subsection \<open>The state after a first construction\<close>

lemma initialize_all_clients_keeps:
  "shared_key_index (initialize_all_clients g keys s) = shared_key_index s
   \<and> api_keys_loaded (initialize_all_clients g keys s) = api_keys_loaded s
   \<and> shared_key_failures (initialize_all_clients g keys s) = shared_key_failures s
   \<and> all_keys_exhausted (initialize_all_clients g keys s) = all_keys_exhausted s
   \<and> trace (initialize_all_clients g keys s) = trace s"
  by (induction g keys s rule: initialize_all_clients.induct) simp_all

lemma initialize_all_clients_other:
  "name \<notin> fst ` set keys \<Longrightarrow>
     map_of (shared_clients (initialize_all_clients g keys s)) name = map_of (shared_clients s) name"
  by (induction g keys s rule: initialize_all_clients.induct) (auto simp: update_conv')

lemma load_backup_keys_names:
  "map fst (load_backup_keys env is keys) =
     map fst keys @ map (\<lambda>i. ''BACKUP_'' @ i)
       (filter (\<lambda>i. case env (''GEMINI_API_KEY_'' @ i) of None \<Rightarrow> False | Some backup \<Rightarrow> backup \<noteq> []) is)"
  by (induction env "is" keys rule: load_backup_keys.induct) (auto split: option.splits)

lemma load_api_keys_distinct: "distinct (map fst (load_api_keys env))"
proof -
  let ?set = "\<lambda>i. case env (''GEMINI_API_KEY_'' @ i) of None \<Rightarrow> False | Some backup \<Rightarrow> backup \<noteq> []"
  let ?backups = "map (\<lambda>i. ''BACKUP_'' @ i) (filter ?set [''1'', ''2'', ''3''])"
  have d: "distinct ?backups"
    by (rule distinct_map_filter) simp
  have "set ?backups \<subseteq> set (map (\<lambda>i. ''BACKUP_'' @ i) [''1'', ''2'', ''3''])" by auto
  then have p: "''PRIMARY'' \<notin> set ?backups" by auto
  show ?thesis
    using d p by (simp add: load_api_keys_def Let_def load_backup_keys_names split: option.splits)
qed

lemma init_fresh_state:
  "snd (init env g py_int py_float class_state) =
     initialize_all_clients g (load_api_keys env)
       (class_state\<lparr>api_keys_loaded := load_api_keys env,
                    shared_key_failures := map (\<lambda>(name, _). (name, 0)) (load_api_keys env)\<rparr>)"
  by (simp add: init_def Let_def class_state_def split: option.splits)

lemma init_fresh_index:
  "shared_key_index (snd (init env g py_int py_float class_state)) = 0
   \<and> api_keys_loaded (snd (init env g py_int py_float class_state)) = load_api_keys env"
  by (simp add: init_fresh_state initialize_all_clients_keeps) (simp add: class_state_def)

lemma init_fresh_client:
  "get_current_client (snd (init env g py_int py_float class_state)) =
     (case load_api_keys env of [] \<Rightarrow> None | (name, api_key) # rest \<Rightarrow> g api_key)"
proof (cases "load_api_keys env")
  case Nil
  have "snd (init env g py_int py_float class_state) = class_state"
    unfolding init_fresh_state Nil by (simp add: class_state_def)
  with Nil show ?thesis
    by (simp add: pool_defs class_state_def)
next
  case (Cons first rest)
  obtain name api_key where first: "first = (name, api_key)" by (cases first)
  from load_api_keys_distinct[of env] Cons first have fresh: "name \<notin> fst ` set rest" by auto
  let ?s0 = "class_state\<lparr>api_keys_loaded := load_api_keys env,
                    shared_key_failures := map (\<lambda>(name, _). (name, 0)) (load_api_keys env)\<rparr>"
  let ?s1 = "?s0\<lparr>shared_clients := AList.update name (g api_key) (shared_clients ?s0)\<rparr>"
  have st: "snd (init env g py_int py_float class_state) = initialize_all_clients g rest ?s1"
    by (simp add: init_fresh_state) (simp add: Cons first)
  have "map_of (shared_clients (initialize_all_clients g rest ?s1)) name = map_of (shared_clients ?s1) name"
    by (rule initialize_all_clients_other[OF fresh])
  then have look: "map_of (shared_clients (initialize_all_clients g rest ?s1)) name = Some (g api_key)"
    by (simp add: update_conv')
  have idx: "shared_key_index (initialize_all_clients g rest ?s1) = 0"
    and keys: "api_keys_loaded (initialize_all_clients g rest ?s1) = (name, api_key) # rest"
    using Cons first by (simp_all add: initialize_all_clients_keeps class_state_def)
  show ?thesis
    unfolding st using look idx keys Cons first by (simp add: pool_defs)
qed

subsection \<open>The current index\<close>

text \<open>
  A pool of two configured keys, the client of the second of which could not be built:
  the index starts at the usable first slot; the rotation finds no other usable slot,
  returns false, and leaves the index at the second slot, which has no client. And when
  it is the client of the first key that could not be built, the index points at a slot
  without a client from the construction on.
\<close>

theorem failed_rotation_leaves_unusable_slot:
  "run_operations [OpInit two_key_env (\<lambda>k. if k = ''key-b1'' then None else Some (Client k)) default_int default_float] class_state
     = broken_backup_pool
   \<and> get_current_client broken_backup_pool = Some (Client ''key-p'')
   \<and> rotate_to_next_key broken_backup_pool = (False, broken_backup_pool\<lparr>shared_key_index := 1\<rparr>)
   \<and> get_current_client (run_operations [OpRotate] broken_backup_pool) = None
   \<and> get_current_client
        (run_operations [OpInit two_key_env (\<lambda>k. if k = ''key-p'' then None else Some (Client k)) default_int default_float]
           class_state) = None"
  by (simp add: init_def load_api_keys_def two_key_env_def class_state_def
      broken_backup_pool_def pool_of_def default_int_def default_float_def getenv_default_def
      rotate_to_next_key_def pool_defs Let_def)

text \<open>
  C3, as amended. A first construction leaves the index at 0, the slot of the first
  configured key, which is usable exactly when there is such a key and its client was
  built. For every sequence of operations (construction, rotation, dispatch,
  \<open>parse_intent\<close>) from a state whose index is at a usable slot, the index is at a usable
  slot afterwards, as long as no operation of the sequence exhausts the ring, that is, as
  long as no rotation returns false and no dispatch ends with
  \<open>All API keys quota exhausted\<close> in a pool that has not exactly one slot. In every case
  the index stays inside the pool, and the pool and its clients stay as they were built;
  a rotation that returns true leaves the index at a usable slot of another name, and a
  rotation in a pool of one slot leaves the state as it is.
\<close>

theorem current_slot_stays_usable:
  "(shared_key_index (snd (init env genai_client py_int py_float class_state)) = 0
    \<and> api_keys_loaded (snd (init env genai_client py_int py_float class_state)) = load_api_keys env
    \<and> get_current_client (snd (init env genai_client py_int py_float class_state)) =
        (case load_api_keys env of [] \<Rightarrow> None | (name, api_key) # rest \<Rightarrow> genai_client api_key))
   \<and> (shared_key_index s < length (api_keys_loaded s) \<and> get_current_client s \<noteq> None
        \<and> never_exhausted ops s \<longrightarrow>
          get_current_client (run_operations ops s) \<noteq> None)
   \<and> (shared_key_index s < length (api_keys_loaded s) \<longrightarrow>
          shared_key_index (run_operations ops s) < length (api_keys_loaded (run_operations ops s))
          \<and> api_keys_loaded (run_operations ops s) = api_keys_loaded s
          \<and> shared_clients (run_operations ops s) = shared_clients s)
   \<and> (fst (rotate_to_next_key s) \<longrightarrow>
          get_current_client (snd (rotate_to_next_key s)) \<noteq> None
          \<and> get_current_key_name (snd (rotate_to_next_key s)) \<noteq> get_current_key_name s)
   \<and> (length (api_keys_loaded s) = 1 \<longrightarrow> rotate_to_next_key s = (False, s))"
proof -
  have rot: "fst (rotate_to_next_key s) \<longrightarrow>
          get_current_client (snd (rotate_to_next_key s)) \<noteq> None
          \<and> get_current_key_name (snd (rotate_to_next_key s)) \<noteq> get_current_key_name s"
    using rotate_true[of s "snd (rotate_to_next_key s)"]
    by (cases "rotate_to_next_key s") auto
  from init_fresh_index[of env genai_client py_int py_float]
    init_fresh_client[of env genai_client py_int py_float]
    run_operations_usable[of s ops] run_operations_index[of s ops] run_operations_pool[of s ops]
    rot rotate_single[of s]
  show ?thesis by blast
qed

text \<open>
  The theorem at the pool of two keys, after a dispatch that rotates to the backup and a
  rotation back, and at the construction from the environment with two keys.
\<close>

theorem current_slot_stays_usable_witness:
  "(shared_key_index two_key_pool < length (api_keys_loaded two_key_pool)
    \<and> get_current_client two_key_pool \<noteq> None
    \<and> never_exhausted [OpDispatch primary_quota no_jitter ''prompt'' 3, OpRotate] two_key_pool)
   \<and> get_current_client (run_operations [OpDispatch primary_quota no_jitter ''prompt'' 3, OpRotate] two_key_pool) \<noteq> None
   \<and> shared_key_index (run_operations [OpDispatch primary_quota no_jitter ''prompt'' 3, OpRotate] two_key_pool) = 0
   \<and> load_api_keys two_key_env = [(''PRIMARY'', ''key-p''), (''BACKUP_1'', ''key-b1'')]
   \<and> get_current_client (snd (init two_key_env (\<lambda>k. Some (Client k)) default_int default_float class_state)) =
       Some (Client ''key-p'')"
proof -
  have h1: "shared_key_index two_key_pool < length (api_keys_loaded two_key_pool)"
    and h2: "get_current_client two_key_pool \<noteq> None"
    by (simp_all add: two_key_pool_def pool_of_def pool_defs)
  have h3: "never_exhausted [OpDispatch primary_quota no_jitter ''prompt'' 3, OpRotate] two_key_pool"
    by code_simp
  have i: "shared_key_index (run_operations [OpDispatch primary_quota no_jitter ''prompt'' 3, OpRotate] two_key_pool) = 0"
    by code_simp
  have k: "load_api_keys two_key_env = [(''PRIMARY'', ''key-p''), (''BACKUP_1'', ''key-b1'')]"
    by (simp add: load_api_keys_def two_key_env_def)
  from current_slot_stays_usable[where s=two_key_pool
      and ops="[OpDispatch primary_quota no_jitter ''prompt'' 3, OpRotate]"
      and env=two_key_env and genai_client="\<lambda>k. Some (Client k)" and py_int=default_int
      and py_float=default_float] h1 h2 h3 i k
  show ?thesis by simp
qed

subsection \<open>Errors that are not about quota\<close>

text \<open>
  C4. At any attempt of the dispatcher, when the remote call fails with an error whose
  text contains neither \<open>429\<close> nor \<open>RESOURCE_EXHAUSTED\<close>, the dispatcher raises that
  error at once: the trace grows by the one remote call only (no rotation, no sleep, no
  further attempt), the current index is unchanged and the breaker is not tripped. A call
  of \<open>call_with_retry\<close> whose first attempt fails so ends in the same way.
\<close>

theorem non_quota_error_fails_immediately:
  assumes "\<not> all_keys_exhausted s"
    and "get_current_client s = Some c"
    and "tr (ncalls s) c prompt = Raises cls e"
    and "\<not> str_in ''429'' e" and "\<not> str_in ''RESOURCE_EXHAUSTED'' e"
  shows "fst (retry_loop tr jitter prompt (Suc left) attempt last_error s) = Inl (RemoteError cls e)
       \<and> shared_key_index (snd (retry_loop tr jitter prompt (Suc left) attempt last_error s)) = shared_key_index s
       \<and> trace (snd (retry_loop tr jitter prompt (Suc left) attempt last_error s)) =
           trace s @ [Called (get_current_key_name s)]
       \<and> \<not> all_keys_exhausted (snd (retry_loop tr jitter prompt (Suc left) attempt last_error s))
       \<and> (0 < max_retries \<longrightarrow>
            call_with_retry tr jitter prompt max_retries s =
              retry_loop tr jitter prompt (Suc left) attempt last_error s)"
proof -
  have loop: "retry_loop tr jitter prompt (Suc n) a l s =
           (Inl (RemoteError cls e),
            s\<lparr>trace := trace s @ [Called (get_current_key_name s)],
              shared_key_failures :=
                AList.update (get_current_key_name s) (failures_get s (get_current_key_name s) + 1)
                  (shared_key_failures s)\<rparr>)" for n a l
    using assms by (simp add: attempt_body_def is_quota_def Let_def failures_get_def)
  have "call_with_retry tr jitter prompt max_retries s =
          retry_loop tr jitter prompt (Suc left) attempt last_error s" if "0 < max_retries"
  proof -
    from that obtain n where "nat max_retries = Suc n" by (cases "nat max_retries") auto
    then show ?thesis using assms(1) by (simp add: call_with_retry_def loop del: retry_loop.simps)
  qed
  then show ?thesis using assms(1) by (simp add: loop del: retry_loop.simps)
qed

text \<open>The theorem at a pool of two keys and a service that answers with a server error.\<close>

theorem non_quota_error_fails_immediately_witness:
  "(\<not> all_keys_exhausted two_key_pool
    \<and> get_current_client two_key_pool = Some (Client ''key-p'')
    \<and> always_broken (ncalls two_key_pool) (Client ''key-p'') ''prompt'' = Raises OtherError ''500 INTERNAL''
    \<and> \<not> str_in ''429'' ''500 INTERNAL'' \<and> \<not> str_in ''RESOURCE_EXHAUSTED'' ''500 INTERNAL'')
   \<and> call_with_retry always_broken no_jitter ''prompt'' 3 two_key_pool =
       retry_loop always_broken no_jitter ''prompt'' (Suc 2) 0 None two_key_pool
   \<and> fst (retry_loop always_broken no_jitter ''prompt'' (Suc 2) 0 None two_key_pool) =
       Inl (RemoteError OtherError ''500 INTERNAL'')
   \<and> shared_key_index (snd (retry_loop always_broken no_jitter ''prompt'' (Suc 2) 0 None two_key_pool)) = 0
   \<and> trace (snd (retry_loop always_broken no_jitter ''prompt'' (Suc 2) 0 None two_key_pool)) = [Called ''PRIMARY'']"
proof -
  have h1: "\<not> all_keys_exhausted two_key_pool"
    and h2: "get_current_client two_key_pool = Some (Client ''key-p'')"
    and h3: "always_broken (ncalls two_key_pool) (Client ''key-p'') ''prompt'' = Raises OtherError ''500 INTERNAL''"
    and h4: "\<not> str_in ''429'' ''500 INTERNAL''"
    and h5: "\<not> str_in ''RESOURCE_EXHAUSTED'' ''500 INTERNAL''"
    by (simp_all add: two_key_pool_def pool_of_def pool_defs always_broken_def)
  have k: "get_current_key_name two_key_pool = ''PRIMARY''" "shared_key_index two_key_pool = 0"
    "trace two_key_pool = []"
    by (simp_all add: two_key_pool_def pool_of_def pool_defs)
  from non_quota_error_fails_immediately[where s=two_key_pool and c="Client ''key-p''" and tr=always_broken
      and prompt="''prompt''" and cls=OtherError and e="''500 INTERNAL''" and jitter=no_jitter
      and left=2 and attempt=0 and last_error=None and max_retries=3, OF h1 h2 h3 h4 h5]
  show ?thesis using h1 h2 h3 h4 h5 k by simp
qed

subsection \<open>A single slot out of quota\<close>

text \<open>
  C8. With a pool of exactly one slot whose remote call answers with a quota error, the
  dispatcher fails with \<open>All API keys quota exhausted\<close> on the first attempt: the trace
  grows by the one remote call only (no rotation, no sleep), the rotation returns false
  and leaves the state as it is, and the breaker is tripped.
\<close>

theorem single_slot_quota_trips_breaker:
  assumes "length (api_keys_loaded s) = 1"
    and "\<not> all_keys_exhausted s"
    and "get_current_client s = Some c"
    and "tr (ncalls s) c prompt = Raises cls e"
    and "is_quota e"
    and "0 < max_retries"
  shows "fst (call_with_retry tr jitter prompt max_retries s) = Inl (Exception ''All API keys quota exhausted'')
       \<and> trace (snd (call_with_retry tr jitter prompt max_retries s)) =
           trace s @ [Called (get_current_key_name s)]
       \<and> shared_key_index (snd (call_with_retry tr jitter prompt max_retries s)) = shared_key_index s
       \<and> all_keys_exhausted (snd (call_with_retry tr jitter prompt max_retries s))
       \<and> rotate_to_next_key s = (False, s)"
proof -
  from \<open>0 < max_retries\<close> obtain left where left: "nat max_retries = Suc left"
    by (cases "nat max_retries") auto
  show ?thesis
    using assms(1-5)
    by (simp add: call_with_retry_def left attempt_body_def Let_def rotate_to_next_key_def failures_get_def)
qed

text \<open>The theorem at the pool of one key.\<close>

theorem single_slot_quota_trips_breaker_witness:
  "(length (api_keys_loaded one_key_pool) = 1
    \<and> \<not> all_keys_exhausted one_key_pool
    \<and> get_current_client one_key_pool = Some (Client ''key-p'')
    \<and> always_quota (ncalls one_key_pool) (Client ''key-p'') ''prompt'' = Raises OtherError ''429 RESOURCE_EXHAUSTED''
    \<and> is_quota ''429 RESOURCE_EXHAUSTED'' \<and> (0::int) < 3)
   \<and> fst (call_with_retry always_quota no_jitter ''prompt'' 3 one_key_pool) =
       Inl (Exception ''All API keys quota exhausted'')
   \<and> trace (snd (call_with_retry always_quota no_jitter ''prompt'' 3 one_key_pool)) = [Called ''PRIMARY'']
   \<and> all_keys_exhausted (snd (call_with_retry always_quota no_jitter ''prompt'' 3 one_key_pool))"
proof -
  have h1: "length (api_keys_loaded one_key_pool) = 1"
    and h2: "\<not> all_keys_exhausted one_key_pool"
    and h3: "get_current_client one_key_pool = Some (Client ''key-p'')"
    and h4: "always_quota (ncalls one_key_pool) (Client ''key-p'') ''prompt'' = Raises OtherError ''429 RESOURCE_EXHAUSTED''"
    and h5: "is_quota ''429 RESOURCE_EXHAUSTED''"
    and h6: "(0::int) < 3"
    by (simp_all add: one_key_pool_def pool_of_def pool_defs always_quota_def is_quota_def)
  have k: "get_current_key_name one_key_pool = ''PRIMARY''" "trace one_key_pool = []"
    by (simp_all add: one_key_pool_def pool_of_def pool_defs)
  from single_slot_quota_trips_breaker[where s=one_key_pool and c="Client ''key-p''" and tr=always_quota
      and prompt="''prompt''" and cls=OtherError and e="''429 RESOURCE_EXHAUSTED''" and jitter=no_jitter
      and max_retries=3, OF h1 h2 h3 h4 h5 h6]
  show ?thesis using h1 h2 h3 h4 h5 k by simp
qed

subsection \<open>The primary out of quota, the backup in service\<close>

text \<open>
  C9. With a pool of two slots, the first one active, the remote calls of the first
  always failing with a quota error and the remote calls of the second always returning
  a payload, the dispatcher returns that payload after one rotation and one sleep of
  \<open>2 ^ 0\<close> plus the jitter; the breaker stays untripped, and the failure counter of the
  second slot is 0.
\<close>

theorem primary_quota_backup_succeeds:
  assumes "api_keys_loaded s = [(p, kp), (b, kb)]" and "p \<noteq> b"
    and "shared_key_index s = 0"
    and "clients_get s p = Some cp" and "clients_get s b = Some cb"
    and "\<not> all_keys_exhausted s"
    and pq: "\<forall>n. \<exists>cls e. tr n cp prompt = Raises cls e \<and> is_quota e"
    and bs: "\<forall>n. tr n cb prompt = Returns payload"
    and "2 \<le> max_retries"
  shows "fst (call_with_retry tr jitter prompt max_retries s) = Inr payload
       \<and> trace (snd (call_with_retry tr jitter prompt max_retries s)) =
           trace s @ [Called p, Rotated p b, Slept (2 ^ 0 + jitter 0), Called b]
       \<and> \<not> all_keys_exhausted (snd (call_with_retry tr jitter prompt max_retries s))
       \<and> failures_get (snd (call_with_retry tr jitter prompt max_retries s)) b = 0
       \<and> shared_key_index (snd (call_with_retry tr jitter prompt max_retries s)) = 1"
proof -
  from \<open>2 \<le> max_retries\<close> obtain left where left: "nat max_retries = Suc (Suc left)"
    by (cases "nat max_retries"; cases "nat max_retries - 1") auto
  from pq obtain cls e where first: "tr (ncalls s) cp prompt = Raises cls e" "is_quota e"
    by blast
  show ?thesis
    using assms(1-6) first bs
    by (simp add: call_with_retry_def left attempt_body_def Let_def rotate_to_next_key_def
        pool_defs update_conv')
qed

text \<open>The theorem at the pool of two keys and a service that refuses the primary key only.\<close>

theorem primary_quota_backup_succeeds_witness:
  "(api_keys_loaded two_key_pool = [(''PRIMARY'', ''key-p''), (''BACKUP_1'', ''key-b1'')]
    \<and> ''PRIMARY'' \<noteq> ''BACKUP_1'' \<and> shared_key_index two_key_pool = 0
    \<and> clients_get two_key_pool ''PRIMARY'' = Some (Client ''key-p'')
    \<and> clients_get two_key_pool ''BACKUP_1'' = Some (Client ''key-b1'')
    \<and> \<not> all_keys_exhausted two_key_pool
    \<and> (\<forall>n. \<exists>cls e. primary_quota n (Client ''key-p'') ''prompt'' = Raises cls e \<and> is_quota e)
    \<and> (\<forall>n. primary_quota n (Client ''key-b1'') ''prompt'' = Returns (RText ''{}''))
    \<and> (2::int) \<le> 3)
   \<and> fst (call_with_retry primary_quota no_jitter ''prompt'' 3 two_key_pool) = Inr (RText ''{}'')
   \<and> trace (snd (call_with_retry primary_quota no_jitter ''prompt'' 3 two_key_pool)) =
       [Called ''PRIMARY'', Rotated ''PRIMARY'' ''BACKUP_1'', Slept 1, Called ''BACKUP_1'']
   \<and> \<not> all_keys_exhausted (snd (call_with_retry primary_quota no_jitter ''prompt'' 3 two_key_pool))
   \<and> failures_get (snd (call_with_retry primary_quota no_jitter ''prompt'' 3 two_key_pool)) ''BACKUP_1'' = 0"
proof -
  have h1: "api_keys_loaded two_key_pool = [(''PRIMARY'', ''key-p''), (''BACKUP_1'', ''key-b1'')]"
    and h2: "''PRIMARY'' \<noteq> ''BACKUP_1''" and h3: "shared_key_index two_key_pool = 0"
    and h4: "clients_get two_key_pool ''PRIMARY'' = Some (Client ''key-p'')"
    and h5: "clients_get two_key_pool ''BACKUP_1'' = Some (Client ''key-b1'')"
    and h6: "\<not> all_keys_exhausted two_key_pool"
    and h7: "\<forall>n. \<exists>cls e. primary_quota n (Client ''key-p'') ''prompt'' = Raises cls e \<and> is_quota e"
    and h8: "\<forall>n. primary_quota n (Client ''key-b1'') ''prompt'' = Returns (RText ''{}'')"
    and h9: "(2::int) \<le> 3"
    by (simp_all add: two_key_pool_def pool_of_def pool_defs primary_quota_def is_quota_def)
  have k: "trace two_key_pool = []" "no_jitter 0 = 0"
    by (simp_all add: two_key_pool_def pool_of_def no_jitter_def)
  from primary_quota_backup_succeeds[where s=two_key_pool and tr=primary_quota and prompt="''prompt''"
      and jitter=no_jitter and max_retries=3, OF h1 h2 h3 h4 h5 h6 h7 h8 h9]
  show ?thesis using h1 h2 h3 h4 h5 h6 h7 h8 k by simp
qed

subsection \<open>A pool with every slot out of quota\<close>

text \<open>
  C1. The claim is that a dispatch over N slots that all answer with a quota error tries
  each slot once, fails with \<open>All API keys quota exhausted\<close> and trips the breaker. The
  code at two such slots, with the default of three retries: it calls the first slot
  twice, raises the last quota error of the service, and leaves the breaker untripped.
  At four such slots it calls three of them and ends in the same way.
\<close>

theorem all_quota_bounded_by_retries:
  "fst (call_with_retry always_quota no_jitter ''prompt'' 3 two_key_pool) =
     Inl (RemoteError OtherError ''429 RESOURCE_EXHAUSTED'')
   \<and> called_keys (trace (snd (call_with_retry always_quota no_jitter ''prompt'' 3 two_key_pool))) =
       [''PRIMARY'', ''BACKUP_1'', ''PRIMARY'']
   \<and> \<not> all_keys_exhausted (snd (call_with_retry always_quota no_jitter ''prompt'' 3 two_key_pool))
   \<and> fst (call_with_retry always_quota no_jitter ''prompt'' 3 four_key_pool) =
     Inl (RemoteError OtherError ''429 RESOURCE_EXHAUSTED'')
   \<and> called_keys (trace (snd (call_with_retry always_quota no_jitter ''prompt'' 3 four_key_pool))) =
       [''PRIMARY'', ''BACKUP_1'', ''BACKUP_2'']
   \<and> \<not> all_keys_exhausted (snd (call_with_retry always_quota no_jitter ''prompt'' 3 four_key_pool))"
  by code_simp

subsection \<open>Backoff\<close>

text \<open>
  Two slots out of quota, three retries: the last act of the dispatcher before it raises
  is a sleep of \<open>2 ^ 2\<close> seconds. With ten retries the sleeps grow to \<open>2 ^ 9\<close> seconds.
\<close>

theorem wait_after_final_attempt:
  "fst (call_with_retry always_quota no_jitter ''prompt'' 3 two_key_pool) =
     Inl (RemoteError OtherError ''429 RESOURCE_EXHAUSTED'')
   \<and> trace (snd (call_with_retry always_quota no_jitter ''prompt'' 3 two_key_pool)) =
       [Called ''PRIMARY'', Rotated ''PRIMARY'' ''BACKUP_1'', Slept 1,
        Called ''BACKUP_1'', Rotated ''BACKUP_1'' ''PRIMARY'', Slept 2,
        Called ''PRIMARY'', Rotated ''PRIMARY'' ''BACKUP_1'', Slept 4]
   \<and> delays (trace (snd (call_with_retry always_quota no_jitter ''prompt'' 10 two_key_pool))) =
       [1, 2, 4, 8, 16, 32, 64, 128, 256, 512]"
  by code_simp

text \<open>
  C7, as amended. With every jitter in \<open>[0, 1]\<close>: the sleeps of a dispatch are, in order,
  those of a strictly increasing list of attempts below \<open>max_retries\<close>, and the sleep of
  attempt \<open>n\<close> lasts \<open>2 ^ n\<close> plus the jitter of attempt \<open>n\<close>, so between \<open>2 ^ n\<close> and
  \<open>2 ^ n + 1\<close> (the bound on the attempts is the only bound on the sleep). When the
  dispatch starts at a usable slot, these attempts are 0, 1, 2 and so on without a gap:
  the sleep number \<open>i\<close> lasts \<open>2 ^ i\<close> plus the jitter of attempt \<open>i\<close>. Each sleep comes
  directly after a remote call on a key and a rotation from that key to another one, so
  none comes before the first attempt; and when the dispatch fails with
  \<open>All API keys quota exhausted\<close>, the last event is a remote call, not a sleep.
\<close>

theorem backoff_waits:
  assumes "\<forall>n. 0 \<le> jitter n \<and> jitter n \<le> 1"
  shows "\<exists>es ns. trace (snd (call_with_retry tr jitter prompt max_retries s)) = trace s @ es
       \<and> waits_follow_rotation es
       \<and> delays es = map (\<lambda>n. 2 ^ n + jitter n) ns
       \<and> sorted_wrt (<) ns \<and> (\<forall>n\<in>set ns. n < nat max_retries)
       \<and> (get_current_client s \<noteq> None \<longrightarrow> ns = [0..<length ns])
       \<and> (\<forall>d\<in>set (delays es). \<exists>n<nat max_retries. d = 2 ^ n + jitter n \<and> 2 ^ n \<le> d \<and> d \<le> 2 ^ n + 1)
       \<and> (fst (call_with_retry tr jitter prompt max_retries s) = Inl (Exception ''All API keys quota exhausted'')
            \<longrightarrow> es \<noteq> [] \<and> is_call (last es))"
proof (cases "all_keys_exhausted s")
  case True
  then have "trace (snd (call_with_retry tr jitter prompt max_retries s)) = trace s @ []"
    and "fst (call_with_retry tr jitter prompt max_retries s) \<noteq> Inl (Exception ''All API keys quota exhausted'')"
    by (simp_all add: call_with_retry_def)
  then show ?thesis by (intro exI[of _ "[]"]) simp
next
  case False
  obtain r s' where run: "retry_loop tr jitter prompt (nat max_retries) 0 None s = (r, s')"
    by (cases "retry_loop tr jitter prompt (nat max_retries) 0 None s")
  from retry_loop_trace[OF run] obtain es where es: "trace s' = trace s @ es"
    and w: "waits_follow_rotation es"
    and x: "r = Inl (Exception ''All API keys quota exhausted'') \<longrightarrow> es \<noteq> [] \<and> is_call (last es)"
    by auto
  from retry_loop_delays[OF run] obtain es' ns where es': "trace s' = trace s @ es'"
    and d: "delays es' = map (\<lambda>n. 2 ^ n + jitter n) ns"
    and o: "sorted_wrt (<) ns"
    and b: "\<forall>n\<in>set ns. 0 \<le> n \<and> n < 0 + nat max_retries"
    and u: "get_current_client s \<noteq> None \<longrightarrow> ns = [0..<0 + length ns]"
    by blast
  from es es' have same: "es' = es" by simp
  have d': "\<forall>d\<in>set (delays es). \<exists>n<nat max_retries. d = 2 ^ n + jitter n \<and> 2 ^ n \<le> d \<and> d \<le> 2 ^ n + 1"
  proof
    fix x assume "x \<in> set (delays es)"
    with d same obtain n where n: "n \<in> set ns" "x = 2 ^ n + jitter n" by auto
    from assms have "0 \<le> jitter n" "jitter n \<le> 1" by auto
    with n b show "\<exists>n<nat max_retries. x = 2 ^ n + jitter n \<and> 2 ^ n \<le> x \<and> x \<le> 2 ^ n + 1"
      by (intro exI[of _ n]) simp
  qed
  have sn: "snd (call_with_retry tr jitter prompt max_retries s) = s'"
    and fs: "fst (call_with_retry tr jitter prompt max_retries s) = r"
    using False run by (simp_all add: call_with_retry_def)
  from es w d o b u d' x same show ?thesis
    unfolding sn fs by (intro exI[of _ es] exI[of _ ns]) simp
qed

text \<open>The theorem at two keys out of quota: three sleeps, of 1, 2 and 4 seconds.\<close>

theorem backoff_waits_witness:
  "((\<forall>n. 0 \<le> no_jitter n \<and> no_jitter n \<le> 1) \<and> get_current_client two_key_pool \<noteq> None)
   \<and> delays (trace (snd (call_with_retry always_quota no_jitter ''prompt'' 3 two_key_pool))) =
       map (\<lambda>n. 2 ^ n + no_jitter n) [0..<3]
   \<and> waits_follow_rotation (trace (snd (call_with_retry always_quota no_jitter ''prompt'' 3 two_key_pool)))"
proof -
  have h: "\<forall>n. 0 \<le> no_jitter n \<and> no_jitter n \<le> 1" by (simp add: no_jitter_def)
  have u: "get_current_client two_key_pool \<noteq> None" by (simp add: two_key_pool_def pool_of_def pool_defs)
  have t0: "trace two_key_pool = []" by (simp add: two_key_pool_def pool_of_def)
  have len: "length (delays (trace (snd (call_with_retry always_quota no_jitter ''prompt'' 3 two_key_pool)))) = 3"
    by code_simp
  from backoff_waits[OF h, of always_quota "''prompt''" 3 two_key_pool] u
  obtain es ns where e: "trace (snd (call_with_retry always_quota no_jitter ''prompt'' 3 two_key_pool)) =
      trace two_key_pool @ es"
    and w: "waits_follow_rotation es"
    and d: "delays es = map (\<lambda>n. 2 ^ n + no_jitter n) ns"
    and n: "ns = [0..<length ns]"
    by blast
  from e t0 have es: "es = trace (snd (call_with_retry always_quota no_jitter ''prompt'' 3 two_key_pool))"
    by simp
  from d es len have "length ns = 3" by (metis length_map)
  with n have "ns = [0..<3]" by simp
  with d es w h u show ?thesis by simp
qed

subsection \<open>Construction without keys\<close>

text \<open>
  An environment without any key: \<open>\_load\_api\_keys\<close> returns the empty list and
  \<open>\_\_init\_\_\<close> returns an instance over the empty pool.
\<close>

theorem empty_pool_is_constructed:
  "load_api_keys empty_env = []
   \<and> init empty_env (\<lambda>k. Some (Client k)) default_int default_float class_state =
       (Inr default_client, class_state)
   \<and> api_keys_loaded class_state = []"
  by (simp add: load_api_keys_def empty_env_def init_def class_state_def default_int_def
      default_float_def default_client_def getenv_default_def)

text \<open>
  C6, as amended. When no key is configured (each of the four variables is unset or
  empty), loading returns the empty pool and, the two numeric settings converting, the
  construction completes with the class-level state as it was. The current key name
  is then \<open>UNKNOWN\<close>, and a dispatch makes no remote call and fails with
  \<open>All retries failed\<close>.
\<close>

theorem construction_without_keys:
  assumes "\<forall>name\<in>set [''GEMINI_API_KEY'', ''GEMINI_API_KEY_1'', ''GEMINI_API_KEY_2'', ''GEMINI_API_KEY_3''].
             env name = None \<or> env name = Some []"
    and "py_int (getenv_default env ''GEMINI_MAX_TOKENS'' ''8192'') = Some tokens"
    and "py_float (getenv_default env ''GEMINI_TEMPERATURE'' ''0.2'') = Some temp"
  shows "load_api_keys env = []
       \<and> init env genai_client py_int py_float class_state =
           (Inr \<lparr>model_name = getenv_default env ''GEMINI_MODEL'' ''gemini-2.5-flash-lite'',
                 max_tokens = tokens, temperature = temp, mock_mode = False\<rparr>, class_state)
       \<and> get_current_key_name class_state = ''UNKNOWN''
       \<and> call_with_retry tr jitter prompt 3 class_state =
           (Inl (Exception ''All retries failed''), class_state)"
proof -
  from assms(1) have e0: "env ''GEMINI_API_KEY'' = None \<or> env ''GEMINI_API_KEY'' = Some []"
    and e1: "env ''GEMINI_API_KEY_1'' = None \<or> env ''GEMINI_API_KEY_1'' = Some []"
    and e2: "env ''GEMINI_API_KEY_2'' = None \<or> env ''GEMINI_API_KEY_2'' = Some []"
    and e3: "env ''GEMINI_API_KEY_3'' = None \<or> env ''GEMINI_API_KEY_3'' = Some []"
    by simp_all
  have k0: "(case env ''GEMINI_API_KEY'' of None \<Rightarrow> []
             | Some primary \<Rightarrow> if primary \<noteq> [] then [(''PRIMARY'', primary)] else []) = []"
    using e0 by auto
  have b3: "load_backup_keys env [''3''] ks = ks" for ks using e3 by auto
  have b2: "load_backup_keys env [''2'', ''3''] ks = ks" for ks using e2 b3 by auto
  have b1: "load_backup_keys env [''1'', ''2'', ''3''] ks = ks" for ks using e1 b2 by auto
  have keys: "load_api_keys env = []" unfolding load_api_keys_def Let_def k0 b1 ..
  have cs: "class_state\<lparr>api_keys_loaded := [], shared_key_failures := []\<rparr> = class_state"
    by (simp add: class_state_def)
  have "init env genai_client py_int py_float class_state =
           (Inr \<lparr>model_name = getenv_default env ''GEMINI_MODEL'' ''gemini-2.5-flash-lite'',
                 max_tokens = tokens, temperature = temp, mock_mode = False\<rparr>, class_state)"
    using assms(2,3) by (simp add: init_def keys cs)
  moreover have "get_current_key_name class_state = ''UNKNOWN''"
    by (simp add: get_current_key_name_def class_state_def)
  moreover have "call_with_retry tr jitter prompt 3 class_state =
           (Inl (Exception ''All retries failed''), class_state)"
    by (simp add: call_with_retry_def attempt_body_def rotate_to_next_key_def pool_defs Let_def
        class_state_def numeral_3_eq_3)
  ultimately show ?thesis using keys by simp
qed

text \<open>The theorem at the empty environment.\<close>

theorem construction_without_keys_witness:
  "(empty_env ''GEMINI_API_KEY'' = None \<and> empty_env ''GEMINI_API_KEY_1'' = None
    \<and> empty_env ''GEMINI_API_KEY_2'' = None \<and> empty_env ''GEMINI_API_KEY_3'' = None)
   \<and> default_int (getenv_default empty_env ''GEMINI_MAX_TOKENS'' ''8192'') = Some 8192
   \<and> default_float (getenv_default empty_env ''GEMINI_TEMPERATURE'' ''0.2'') = Some 0.2
   \<and> init empty_env (\<lambda>k. Some (Client k)) default_int default_float class_state =
       (Inr \<lparr>model_name = getenv_default empty_env ''GEMINI_MODEL'' ''gemini-2.5-flash-lite'',
             max_tokens = 8192, temperature = 0.2, mock_mode = False\<rparr>, class_state)
   \<and> call_with_retry always_quota no_jitter ''prompt'' 3 class_state =
       (Inl (Exception ''All retries failed''), class_state)"
proof -
  have e: "empty_env ''GEMINI_API_KEY'' = None \<and> empty_env ''GEMINI_API_KEY_1'' = None
    \<and> empty_env ''GEMINI_API_KEY_2'' = None \<and> empty_env ''GEMINI_API_KEY_3'' = None"
    by (simp add: empty_env_def)
  have h1: "\<forall>name\<in>set [''GEMINI_API_KEY'', ''GEMINI_API_KEY_1'', ''GEMINI_API_KEY_2'', ''GEMINI_API_KEY_3''].
      empty_env name = None \<or> empty_env name = Some []"
    and h2: "default_int (getenv_default empty_env ''GEMINI_MAX_TOKENS'' ''8192'') = Some 8192"
    and h3: "default_float (getenv_default empty_env ''GEMINI_TEMPERATURE'' ''0.2'') = Some 0.2"
    by (simp_all add: empty_env_def default_int_def default_float_def getenv_default_def)
  from construction_without_keys[where env=empty_env and py_int=default_int and py_float=default_float
      and tokens=8192 and temp="0.2" and genai_client="\<lambda>k. Some (Client k)" and tr=always_quota
      and jitter=no_jitter and prompt="''prompt''", OF h1 h2 h3] e h2 h3
  show ?thesis by blast
qed

subsection \<open>The rotation status\<close>

text \<open>
  C10. For every instance and every state, \<open>get_key_rotation_info\<close> raises
  \<open>AttributeError\<close> for \<open>current_key_index\<close>, a name that neither \<open>\_\_init\_\_\<close> nor the
  class body assigns; it never returns its dictionary.
\<close>

theorem rotation_info_raises:
  "get_key_rotation_info self s = Inl (AttributeError ''current_key_index'')"
  by (simp add: get_key_rotation_info_def self_attr_def method_names_def)

subsection \<open>The fallback payload\<close>

lemma validate_obj:
  "validate_intent_structure (JObj kvs) = Inr () \<longleftrightarrow>
     map_of kvs ''scale'' \<noteq> None \<and> map_of kvs ''requirements'' \<noteq> None
     \<and> map_of kvs ''constraints'' \<noteq> None
     \<and> (\<exists>workload. map_of kvs ''workload_type'' = Some (JStr workload) \<and> workload \<in> set valid_workloads)
     \<and> (\<exists>confidence. map_of kvs ''parsing_confidence'' = Some confidence \<and> confidence_ok confidence)"
  by (auto simp: validate_intent_structure_def required_fields_def split: option.splits sum.splits)

lemma validate_only_obj:
  "validate_intent_structure data = Inr () \<Longrightarrow> \<exists>kvs. data = JObj kvs"
  by (cases data) (auto simp: validate_intent_structure_def required_fields_def split: sum.splits if_splits)

lemma json_set_valid:
  assumes "validate_intent_structure data = Inr ()"
    and "key \<noteq> ''workload_type''" and "key \<noteq> ''parsing_confidence''"
  shows "\<exists>kvs. json_set data key v = Inr (JObj kvs) \<and> validate_intent_structure (JObj kvs) = Inr ()"
proof -
  from validate_only_obj[OF assms(1)] obtain kvs where d: "data = JObj kvs" by blast
  with assms show ?thesis by (auto simp: validate_obj update_conv')
qed

lemma first_matching_in:
  "first_matching table t dflt \<in> insert dflt (fst ` set table)"
  by (induction table t dflt rule: first_matching.induct) auto

lemma detected_workload_valid:
  "first_matching workload_keywords t ''api_backend'' \<in> set valid_workloads"
proof -
  have "insert ''api_backend'' (fst ` set workload_keywords) \<subseteq> set valid_workloads"
    by (simp add: workload_keywords_def valid_workloads_def)
  with first_matching_in[of workload_keywords t "''api_backend''"] show ?thesis by blast
qed

lemma round2_between:
  assumes "real_of_int lo / 100 \<le> x" and "x \<le> real_of_int hi / 100"
  shows "real_of_int lo / 100 \<le> round2 x \<and> round2 x \<le> real_of_int hi / 100"
proof -
  from assms have l: "real_of_int lo \<le> x * 100" and h: "x * 100 \<le> real_of_int hi" by simp_all
  from round_mono[OF l] round_mono[OF h]
  have "lo \<le> round (x * 100)" "round (x * 100) \<le> hi" by simp_all
  then have "real_of_int lo \<le> real_of_int (round (x * 100))" "real_of_int (round (x * 100)) \<le> real_of_int hi"
    by simp_all
  then show ?thesis by (simp add: round2_def divide_right_mono)
qed

lemma confidence_range:
  assumes "0 \<le> uniform_confidence w" and "uniform_confidence w \<le> 1"
  shows "0.6 \<le> confidence_of w user_input \<and> confidence_of w user_input \<le> 0.95"
proof -
  let ?u = "uniform_confidence w"
  have a: "real_of_int 60 / 100 \<le> uniform 0.6 0.75 ?u \<and> uniform 0.6 0.75 ?u \<le> real_of_int 75 / 100"
    using assms by (simp add: uniform_def)
  have b: "real_of_int 75 / 100 \<le> uniform 0.75 0.85 ?u \<and> uniform 0.75 0.85 ?u \<le> real_of_int 85 / 100"
    using assms by (simp add: uniform_def)
  have c: "real_of_int 85 / 100 \<le> uniform 0.85 0.95 ?u \<and> uniform 0.85 0.95 ?u \<le> real_of_int 95 / 100"
    using assms by (simp add: uniform_def)
  from round2_between[of 60 _ 75] a have a': "0.6 \<le> round2 (uniform 0.6 0.75 ?u) \<and> round2 (uniform 0.6 0.75 ?u) \<le> 0.75"
    by simp
  from round2_between[of 75 _ 85] b have b': "0.75 \<le> round2 (uniform 0.75 0.85 ?u) \<and> round2 (uniform 0.75 0.85 ?u) \<le> 0.85"
    by simp
  from round2_between[of 85 _ 95] c have c': "0.85 \<le> round2 (uniform 0.85 0.95 ?u) \<and> round2 (uniform 0.85 0.95 ?u) \<le> 0.95"
    by simp
  from a' b' c' show ?thesis by (auto simp: confidence_of_def Let_def)
qed

lemma enhanced_mock_parse_valid:
  assumes "0 \<le> uniform_confidence w" and "uniform_confidence w \<le> 1"
  shows "validate_intent_structure (JObj (enhanced_mock_parse w user_input)) = Inr ()"
  using confidence_range[OF assms, of user_input] detected_workload_valid[of "py_lower user_input"]
  by (simp add: validate_obj enhanced_mock_parse_def Let_def)

lemma fallback_result_valid:
  assumes "0 \<le> uniform_confidence w" and "uniform_confidence w \<le> 1"
  shows "validate_intent_structure (fallback_result w user_input) = Inr ()"
  using enhanced_mock_parse_valid[OF assms, of user_input]
  by (simp add: fallback_result_def validate_obj update_conv')

lemma add_metadata_valid:
  assumes "validate_intent_structure data = Inr ()"
  shows "\<exists>kvs. add_metadata self s data = Inr (JObj kvs) \<and> validate_intent_structure (JObj kvs) = Inr ()"
proof -
  from json_set_valid[OF assms, of "''parsing_source''" "JStr ''gemini_api''"]
  obtain k1 where 1: "json_set data ''parsing_source'' (JStr ''gemini_api'') = Inr (JObj k1)"
    and v1: "validate_intent_structure (JObj k1) = Inr ()" by auto
  from json_set_valid[OF v1, of "''llm_model''" "JStr (model_name self)"]
  obtain k2 where 2: "json_set (JObj k1) ''llm_model'' (JStr (model_name self)) = Inr (JObj k2)"
    and v2: "validate_intent_structure (JObj k2) = Inr ()" by auto
  from json_set_valid[OF v2, of "''active_key''" "JStr (get_current_key_name s)"]
  obtain k3 where 3: "json_set (JObj k2) ''active_key'' (JStr (get_current_key_name s)) = Inr (JObj k3)"
    and v3: "validate_intent_structure (JObj k3) = Inr ()" by auto
  from 1 2 3 v3 show ?thesis by (simp add: add_metadata_def)
qed

lemma finish_result_valid:
  assumes "validate_intent_structure data = Inr ()"
  shows "\<exists>kvs. finish_result w s data = Inr (JObj kvs) \<and> validate_intent_structure (JObj kvs) = Inr ()"
proof -
  from json_set_valid[OF assms, of "''processing_time_ms''" "JInt (elapsed_ms w)"]
  obtain k1 where 1: "json_set data ''processing_time_ms'' (JInt (elapsed_ms w)) = Inr (JObj k1)"
    and v1: "validate_intent_structure (JObj k1) = Inr ()" by auto
  from json_set_valid[OF v1, of "''active_key''" "JStr (get_current_key_name s)"]
  obtain k2 where 2: "json_set (JObj k1) ''active_key'' (JStr (get_current_key_name s)) = Inr (JObj k2)"
    and v2: "validate_intent_structure (JObj k2) = Inr ()" by auto
  from 1 2 v2 show ?thesis by (simp add: finish_result_def)
qed

lemma parse_with_gemini_valid:
  assumes "0 \<le> uniform_confidence w" and "uniform_confidence w \<le> 1"
    and "parse_with_gemini w self user_input s = (Inr result, s')"
  shows "validate_intent_structure result = Inr ()"
proof -
  note mock = enhanced_mock_parse_valid[OF assms(1,2), of user_input]
  obtain r s1 where run: "call_with_retry (remote w) (backoff_jitter w) (prompt_of w user_input) 3 s = (r, s1)"
    by (cases "call_with_retry (remote w) (backoff_jitter w) (prompt_of w user_input) 3 s")
  show ?thesis
  proof (cases r)
    case (Inl e)
    with run assms(3) mock show ?thesis
      by (auto simp: parse_with_gemini_def Let_def split: error.splits exc_class.splits)
  next
    case (Inr response)
    show ?thesis
    proof (cases "extract_json_from_response (json_loads w) (response_text response)")
      case None
      with Inr run assms(3) show ?thesis
        by (auto simp: parse_with_gemini_def Let_def split: if_splits)
    next
      case (Some json_text)
      show ?thesis
      proof (cases "json_loads w json_text")
        case None
        with Some Inr run assms(3) mock show ?thesis
          by (auto simp: parse_with_gemini_def Let_def split: if_splits)
      next
        case loaded: (Some data)
        show ?thesis
        proof (cases "validate_intent_structure data")
          case (Inl e)
          with loaded Some Inr run assms(3) show ?thesis
            by (auto simp: parse_with_gemini_def Let_def split: if_splits)
        next
          case ok: (Inr u)
          then have "validate_intent_structure data = Inr ()" by simp
          from add_metadata_valid[OF this, of self s1] ok loaded Some Inr run assms(3)
          show ?thesis
            by (auto simp: parse_with_gemini_def Let_def split: if_splits)
        qed
      qed
    qed
  qed
qed

lemma tripped_parse_intent:
  assumes "all_keys_exhausted s"
  shows "parse_intent w self user_input s = (Inr (fallback_result w user_input), s)"
  using assms by (simp add: parse_intent_def parse_with_gemini_def call_with_retry_def Let_def)

lemma tripped_run:
  "all_keys_exhausted s \<Longrightarrow> run_operations (map (OpParse w self) inputs) s = s"
  by (induction inputs) (simp_all add: tripped_parse_intent)

subsection \<open>The tripped breaker\<close>

text \<open>
  C2. Once the breaker is tripped, \<open>parse_intent\<close> returns the result of the fallback
  parser (source \<open>enhanced_mock\<close>, active key \<open>MOCK_FALLBACK\<close>) and leaves the state as it
  is: the trace has no new remote call, and the breaker stays tripped, so the same holds
  for every further call.
\<close>

theorem tripped_breaker_goes_to_fallback:
  assumes "all_keys_exhausted s"
  shows "parse_intent w self user_input s = (Inr (fallback_result w user_input), s)
       \<and> json_item (fallback_result w user_input) ''parsing_source'' = Inr (JStr ''enhanced_mock'')
       \<and> json_item (fallback_result w user_input) ''active_key'' = Inr (JStr ''MOCK_FALLBACK'')
       \<and> called_keys (trace (snd (parse_intent w self user_input s))) = called_keys (trace s)
       \<and> run_operations (map (OpParse w self) inputs) s = s"
proof -
  have src: "json_item (fallback_result w user_input) ''parsing_source'' = Inr (JStr ''enhanced_mock'')"
    by (simp add: fallback_result_def update_conv' enhanced_mock_parse_def Let_def)
  have key: "json_item (fallback_result w user_input) ''active_key'' = Inr (JStr ''MOCK_FALLBACK'')"
    by (simp add: fallback_result_def update_conv')
  from tripped_parse_intent[OF assms, of w self user_input] tripped_run[OF assms, of w self inputs] src key
  show ?thesis by simp
qed

text \<open>The theorem at the state that a dispatch over one key out of quota leaves.\<close>

theorem tripped_breaker_goes_to_fallback_witness:
  "all_keys_exhausted (snd (call_with_retry always_quota no_jitter ''prompt'' 3 one_key_pool))
   \<and> parse_intent example_world default_client ''API for 2.5k users''
         (snd (call_with_retry always_quota no_jitter ''prompt'' 3 one_key_pool)) =
       (Inr (fallback_result example_world ''API for 2.5k users''),
        snd (call_with_retry always_quota no_jitter ''prompt'' 3 one_key_pool))
   \<and> called_keys (trace (snd (parse_intent example_world default_client ''API for 2.5k users''
         (snd (call_with_retry always_quota no_jitter ''prompt'' 3 one_key_pool))))) = [''PRIMARY'']"
proof -
  have h: "all_keys_exhausted (snd (call_with_retry always_quota no_jitter ''prompt'' 3 one_key_pool))"
    by code_simp
  have c: "called_keys (trace (snd (call_with_retry always_quota no_jitter ''prompt'' 3 one_key_pool))) = [''PRIMARY'']"
    by code_simp
  from tripped_breaker_goes_to_fallback[OF h, of example_world default_client "''API for 2.5k users''"] h c
  show ?thesis by simp
qed

subsection \<open>No exception from \<open>parse_intent\<close>\<close>

text \<open>
  C5. With the random draw of the confidence in \<open>[0, 1]\<close>, \<open>parse_intent\<close> returns a
  result on every input, for every state and every behaviour of the remote service, and
  the result passes \<open>\_validate\_intent\_structure\<close>. Every error of
  \<open>\_parse\_with\_gemini\<close> is answered with the result of the fallback parser. The
  payload of the fallback parser passes the validation on every input: it has the
  required fields, a valid workload type, and a confidence in \<open>[0, 1]\<close>.
\<close>

theorem parse_intent_never_raises:
  assumes "0 \<le> uniform_confidence w" and "uniform_confidence w \<le> 1"
  shows "(\<exists>result. fst (parse_intent w self user_input s) = Inr result
                   \<and> validate_intent_structure result = Inr ())
       \<and> (\<forall>e s'. parse_with_gemini w self user_input s = (Inl e, s') \<longrightarrow>
             parse_intent w self user_input s = (Inr (fallback_result w user_input), s'))
       \<and> validate_intent_structure (JObj (enhanced_mock_parse w user_input)) = Inr ()
       \<and> json_item (JObj (enhanced_mock_parse w user_input)) ''parsing_confidence'' =
           Inr (JFloat (confidence_of w user_input))
       \<and> 0 \<le> confidence_of w user_input \<and> confidence_of w user_input \<le> 1"
proof -
  note fb = fallback_result_valid[OF assms, of user_input]
  obtain r s1 where run: "parse_with_gemini w self user_input s = (r, s1)"
    by (cases "parse_with_gemini w self user_input s")
  have total: "\<exists>result. fst (parse_intent w self user_input s) = Inr result
                   \<and> validate_intent_structure result = Inr ()"
  proof (cases r)
    case (Inl e)
    with run fb show ?thesis by (simp add: parse_intent_def)
  next
    case (Inr data)
    with run parse_with_gemini_valid[OF assms, of self user_input s data s1]
    have "validate_intent_structure data = Inr ()" by simp
    from finish_result_valid[OF this, of w s1] Inr run show ?thesis
      by (auto simp: parse_intent_def)
  qed
  have absorb: "\<forall>e s'. parse_with_gemini w self user_input s = (Inl e, s') \<longrightarrow>
             parse_intent w self user_input s = (Inr (fallback_result w user_input), s')"
    by (simp add: parse_intent_def)
  have item: "json_item (JObj (enhanced_mock_parse w user_input)) ''parsing_confidence'' =
           Inr (JFloat (confidence_of w user_input))"
    by (simp add: enhanced_mock_parse_def Let_def)
  from confidence_range[OF assms, of user_input]
  have range: "0 \<le> confidence_of w user_input \<and> confidence_of w user_input \<le> 1" by simp
  from total absorb enhanced_mock_parse_valid[OF assms, of user_input] item range
  show ?thesis by blast
qed

text \<open>The theorem at a request with a number that ends in \<open>k\<close>.\<close>

theorem parse_intent_never_raises_witness:
  "(0 \<le> uniform_confidence example_world \<and> uniform_confidence example_world \<le> 1)
   \<and> validate_intent_structure (JObj (enhanced_mock_parse example_world ''API for 2.5k users'')) = Inr ()
   \<and> (\<exists>result. fst (parse_intent example_world default_client ''API for 2.5k users'' two_key_pool) = Inr result)"
proof -
  have h1: "0 \<le> uniform_confidence example_world" and h2: "uniform_confidence example_world \<le> 1"
    by (simp_all add: example_world_def)
  from parse_intent_never_raises[OF h1 h2, of default_client "''API for 2.5k users''" two_key_pool] h1 h2
  show ?thesis by blast
qed

end
